theory Spec2Isabelle
  imports Main "HOL-Library.AList"
begin

section \<open>Strings\<close>

text \<open>
  A JavaScript string is modelled as a \<^typ>\<open>string\<close>, a list of 8-bit characters.
  Header names are HTTP field-name tokens, hence ASCII, and on ASCII the methods
  \<^verbatim>\<open>toUpperCase\<close> and \<^verbatim>\<open>toLowerCase\<close> act on the letters a-z and A-Z only and leave
  every other character as it is. Characters above 127 are outside the modelled alphabet
  and are passed through unchanged.
\<close>

definition toUpperCase_char :: "char \<Rightarrow> char" where
  "toUpperCase_char c =
     (let n = (of_char c :: nat) in if 97 \<le> n \<and> n \<le> 122 then char_of (n - 32) else c)"

definition toLowerCase_char :: "char \<Rightarrow> char" where
  "toLowerCase_char c =
     (let n = (of_char c :: nat) in if 65 \<le> n \<and> n \<le> 90 then char_of (n + 32) else c)"

definition toUpperCase :: "string \<Rightarrow> string" where
  "toUpperCase s = map toUpperCase_char s"

definition toLowerCase :: "string \<Rightarrow> string" where
  "toLowerCase s = map toLowerCase_char s"

text \<open>
  \<^verbatim>\<open>s.split(sep)\<close> for a one-character separator: a string with n separators gives
  n + 1 parts, empty ones included; the empty string gives one empty part.
\<close>

fun split :: "char \<Rightarrow> string \<Rightarrow> string list" where
  "split sep [] = [[]]"
| "split sep (c # cs) =
     (if c = sep then [] # split sep cs
      else (case split sep cs of
              [] \<Rightarrow> [[c]]
            | part # parts \<Rightarrow> (c # part) # parts))"

text \<open>\<^verbatim>\<open>parts.join(sep)\<close>: the separator goes between every two neighbours.\<close>

fun join :: "string \<Rightarrow> string list \<Rightarrow> string" where
  "join sep [] = []"
| "join sep [part] = part"
| "join sep (part # parts) = part @ sep @ join sep parts"

section \<open>Header codec\<close>

text \<open>
  \<^verbatim>\<open>
  function canonHeader(h: string): string {
      return h.replace(/_/g, '-').split('-').map((part) => {
          if (part) {
              return part.charAt(0).toUpperCase() + part.slice(1).toLowerCase();
          }
          return '';
      }).join('-');
  }
  \<close>
  The same body is repeated as a private method of \<^verbatim>\<open>Context\<close> and of
  \<^verbatim>\<open>HTTPGatewayContext\<close>; one definition stands for the three.
\<close>

definition replace_underscores :: "string \<Rightarrow> string" where
  "replace_underscores h = map (\<lambda>c. if c = CHR ''_'' then CHR ''-'' else c) h"

definition capitalize :: "string \<Rightarrow> string" where
  "capitalize part =
     (if part \<noteq> [] then toUpperCase [hd part] @ toLowerCase (tl part) else [])"

definition canonHeader :: "string \<Rightarrow> string" where
  "canonHeader h = join ''-'' (map capitalize (split CHR ''-'' (replace_underscores h)))"

text \<open>
  The canonicalization as the specification words it: the empty segments are removed
  before the segments are joined again, so that they leave no separator behind.
\<close>

definition canonicalize_spec :: "string \<Rightarrow> string" where
  "canonicalize_spec h =
     join ''-'' (map capitalize
       (filter (\<lambda>part. part \<noteq> []) (split CHR ''-'' (replace_underscores h))))"

text \<open>
  The canonicalization read off character by character: a separator becomes a hyphen,
  the character after a separator (or at the start) is upper-cased, every other one is
  lower-cased. The flag says whether the next character starts a segment.
\<close>

fun canon_scan :: "bool \<Rightarrow> string \<Rightarrow> string" where
  "canon_scan start [] = []"
| "canon_scan start (c # cs) =
     (if c = CHR ''_'' \<or> c = CHR ''-'' then CHR ''-'' # canon_scan True cs
      else (if start then toUpperCase_char c else toLowerCase_char c) # canon_scan False cs)"

text \<open>
  \<^verbatim>\<open>FnHeaders\<close> is an object from header names to arrays of values. It is modelled as
  an association list in insertion order: assigning to a key that exists replaces the
  value in place, assigning to a new key appends it (\<^const>\<open>AList.update\<close>), and a
  lookup is \<^const>\<open>map_of\<close>.
\<close>

type_synonym FnHeaders = "(string \<times> string list) list"

text \<open>
  \<^verbatim>\<open>
  const skipHeaders : { [key: string]: boolean } = {
      TE: true, Connection: true, 'Keep-Alive': true,
      'Transfer-Encoding': true, Trailer: true, Upgrade: true
  };
  \<close>
  The test \<^verbatim>\<open>skipHeaders[key]\<close> is true exactly for the six own keys: a key inherited
  from the object prototype starts with a lower-case letter or an underscore, which a
  canonical name never does (lemma \<open>canonHeader_first_char\<close> below).
\<close>

definition skipHeaders :: "string list" where
  "skipHeaders =
     [''TE'', ''Connection'', ''Keep-Alive'', ''Transfer-Encoding'', ''Trailer'', ''Upgrade'']"

text \<open>
  \<^verbatim>\<open>
  function processHeaders(rawHeaders: string[]): FnHeaders {
      const headers: FnHeaders = {};
      for (let i = 0; i < rawHeaders.length; i += 2) {
          const key = canonHeader(rawHeaders[i]);
          if (skipHeaders[key]) continue;
          const value = rawHeaders[i + 1];
          if (!headers[key]) { headers[key] = [value]; }
          else { headers[key].push(value); }
      }
      return headers;
  }
  \<close>
  The transport delivers \<^verbatim>\<open>rawHeaders\<close> as name, value, name, value, ...; the model
  takes the list already paired, and the loop is the recursion over it with the object
  under construction as accumulator.
\<close>

fun processHeaders_loop :: "FnHeaders \<Rightarrow> (string \<times> string) list \<Rightarrow> FnHeaders" where
  "processHeaders_loop headers [] = headers"
| "processHeaders_loop headers ((name, val) # rest) =
     (let key = canonHeader name in
      if key \<in> set skipHeaders then processHeaders_loop headers rest
      else (case map_of headers key of
              None \<Rightarrow> processHeaders_loop (AList.update key [val] headers) rest
            | Some vals \<Rightarrow> processHeaders_loop (AList.update key (vals @ [val]) headers) rest))"

definition processHeaders :: "(string \<times> string) list \<Rightarrow> FnHeaders" where
  "processHeaders rawHeaders = processHeaders_loop [] rawHeaders"

text \<open>
  The deny-set of the specification, as lower-case names: a header is in it when its
  name, compared without regard to case, is one of the six.
\<close>

definition deny_set :: "string list" where
  "deny_set =
     [''te'', ''connection'', ''keep-alive'', ''transfer-encoding'', ''trailer'', ''upgrade'']"

definition in_deny_set :: "string \<Rightarrow> bool" where
  "in_deny_set name \<longleftrightarrow> toLowerCase name \<in> set deny_set"

section \<open>Values and JSON\<close>

text \<open>
  The values user code receives and returns. An object is its list of members in
  insertion order. A \<^verbatim>\<open>Buffer\<close> is its bytes. Numbers are the integers; a number
  literal with a fraction or an exponent denotes a floating-point value, which is not
  computed here and is kept as its text (\<open>JFloat\<close>). Text outside ASCII stands for its
  UTF-8 bytes.
\<close>

datatype js_value =
    JUndefined
  | JNull
  | JBool bool
  | JNumber int
  | JFloat string
  | JString string
  | JArray "js_value list"
  | JObject "(string \<times> js_value) list"
  | JBuffer string

text \<open>\<^verbatim>\<open>v == null\<close>, true of \<^verbatim>\<open>null\<close> and \<^verbatim>\<open>undefined\<close>.\<close>

definition is_nullish :: "js_value \<Rightarrow> bool" where
  "is_nullish v \<longleftrightarrow> v = JUndefined \<or> v = JNull"

text \<open>\<^verbatim>\<open>typeof v === 'object'\<close>: true of \<^verbatim>\<open>null\<close>, arrays, objects and buffers.\<close>

fun typeof_object :: "js_value \<Rightarrow> bool" where
  "typeof_object JNull = True"
| "typeof_object (JArray _) = True"
| "typeof_object (JObject _) = True"
| "typeof_object (JBuffer _) = True"
| "typeof_object _ = False"

definition dquote :: char where "dquote = CHR 0x22"
definition backslash :: char where "backslash = CHR 0x5C"

fun digits_of :: "nat \<Rightarrow> string" where
  "digits_of n =
     (if n < 10 then [char_of (48 + n)]
      else digits_of (n div 10) @ [char_of (48 + n mod 10)])"

text \<open>\<^verbatim>\<open>n.toString()\<close> for an integer.\<close>

definition Number_toString :: "int \<Rightarrow> string" where
  "Number_toString i = (if i < 0 then CHR ''-'' # digits_of (nat (- i)) else digits_of (nat i))"

definition hex_digit :: "nat \<Rightarrow> char" where
  "hex_digit n = (if n < 10 then char_of (48 + n) else char_of (87 + n))"

text \<open>
  The quoting of \<^verbatim>\<open>JSON.stringify\<close>: the double quote and the backslash are escaped,
  the control characters get their short escape or \<^verbatim>\<open>\u00XX\<close>, all else is verbatim.
\<close>

definition quote_char :: "char \<Rightarrow> string" where
  "quote_char c =
     (let n = (of_char c :: nat) in
      if c = dquote then [backslash, dquote]
      else if c = backslash then [backslash, backslash]
      else if n = 8 then [backslash, CHR ''b'']
      else if n = 9 then [backslash, CHR ''t'']
      else if n = 10 then [backslash, CHR ''n'']
      else if n = 12 then [backslash, CHR ''f'']
      else if n = 13 then [backslash, CHR ''r'']
      else if n < 32 then [backslash, CHR ''u'', CHR ''0'', CHR ''0'',
                            hex_digit (n div 16), hex_digit (n mod 16)]
      else [c])"

definition quote :: "string \<Rightarrow> string" where
  "quote s = dquote # concat (map quote_char s) @ [dquote]"

text \<open>
  \<^verbatim>\<open>JSON.stringify(v)\<close>. A member whose value is \<^verbatim>\<open>undefined\<close> is left out of an
  object, and \<^verbatim>\<open>undefined\<close> in an array is written \<^verbatim>\<open>null\<close>; a buffer is written
  through its \<^verbatim>\<open>toJSON\<close>, as \<^verbatim>\<open>{"type":"Buffer","data":[...]}\<close>. The callers below
  never pass \<^verbatim>\<open>undefined\<close> itself.
\<close>

fun JSON_stringify :: "js_value \<Rightarrow> string" where
  "JSON_stringify JUndefined = ''null''"
| "JSON_stringify JNull = ''null''"
| "JSON_stringify (JBool b) = (if b then ''true'' else ''false'')"
| "JSON_stringify (JNumber i) = Number_toString i"
| "JSON_stringify (JFloat lit) = lit"
| "JSON_stringify (JString s) = quote s"
| "JSON_stringify (JArray vs) = ''['' @ join '','' (map JSON_stringify vs) @ '']''"
| "JSON_stringify (JObject ms) =
     ''{'' @ join '',''
        (map (\<lambda>m. quote (fst m) @ '':'' @ JSON_stringify (snd m))
           (filter (\<lambda>m. snd m \<noteq> JUndefined) ms)) @ ''}''"
| "JSON_stringify (JBuffer bytes) =
     ''{'' @ quote ''type'' @ '':'' @ quote ''Buffer'' @ '','' @ quote ''data'' @ '':['' @
       join '','' (map (\<lambda>b. digits_of (of_char b)) bytes) @ '']}''"

subsection \<open>Parsing\<close>

definition is_ws :: "char \<Rightarrow> bool" where
  "is_ws c \<longleftrightarrow> (of_char c :: nat) \<in> {32, 9, 10, 13}"

definition skip_ws :: "string \<Rightarrow> string" where
  "skip_ws s = dropWhile is_ws s"

definition is_digit :: "char \<Rightarrow> bool" where
  "is_digit c \<longleftrightarrow> 48 \<le> (of_char c :: nat) \<and> (of_char c :: nat) \<le> 57"

definition digit_val :: "char \<Rightarrow> nat" where
  "digit_val c = of_char c - 48"

definition hex_val :: "char \<Rightarrow> nat option" where
  "hex_val c =
     (let n = (of_char c :: nat) in
      if 48 \<le> n \<and> n \<le> 57 then Some (n - 48)
      else if 97 \<le> n \<and> n \<le> 102 then Some (n - 87)
      else if 65 \<le> n \<and> n \<le> 70 then Some (n - 55)
      else None)"

text \<open>The UTF-8 bytes of a code unit below 65536 (surrogate pairs are not combined).\<close>

definition utf8 :: "nat \<Rightarrow> string" where
  "utf8 u =
     (if u < 128 then [char_of u]
      else if u < 2048 then [char_of (192 + u div 64), char_of (128 + u mod 64)]
      else [char_of (224 + u div 4096), char_of (128 + (u div 64) mod 64),
            char_of (128 + u mod 64)])"

definition unescape :: "char \<Rightarrow> char option" where
  "unescape e =
     (if e = dquote then Some dquote
      else if e = backslash then Some backslash
      else if e = CHR ''/'' then Some CHR ''/''
      else if e = CHR ''b'' then Some (char_of (8 :: nat))
      else if e = CHR ''f'' then Some (char_of (12 :: nat))
      else if e = CHR ''n'' then Some (char_of (10 :: nat))
      else if e = CHR ''r'' then Some (char_of (13 :: nat))
      else if e = CHR ''t'' then Some (char_of (9 :: nat))
      else None)"

text \<open>
  The characters of a string literal after its opening quote, up to the closing one;
  the result is the decoded text and the input that follows.
\<close>

fun parse_string :: "string \<Rightarrow> (string \<times> string) option" where
  "parse_string [] = None"
| "parse_string (c # cs) =
     (if c = dquote then Some ([], cs)
      else if c = backslash then
        (case cs of
           [] \<Rightarrow> None
         | e # rest \<Rightarrow>
             if e = CHR ''u'' then
               (case rest of
                  h1 # h2 # h3 # h4 # rest' \<Rightarrow>
                    (case (hex_val h1, hex_val h2, hex_val h3, hex_val h4) of
                       (Some a, Some b, Some c', Some d) \<Rightarrow>
                         (case parse_string rest' of
                            None \<Rightarrow> None
                          | Some (s, r) \<Rightarrow>
                              Some (utf8 (4096 * a + 256 * b + 16 * c' + d) @ s, r))
                     | _ \<Rightarrow> None)
                | _ \<Rightarrow> None)
             else
               (case unescape e of
                  None \<Rightarrow> None
                | Some ch \<Rightarrow>
                    (case parse_string rest of
                       None \<Rightarrow> None
                     | Some (s, r) \<Rightarrow> Some (ch # s, r))))
      else if (of_char c :: nat) < 32 then None
      else (case parse_string cs of
              None \<Rightarrow> None
            | Some (s, r) \<Rightarrow> Some (c # s, r)))"

text \<open>
  A number literal: an optional minus, the integer part (a lone zero, or digits not
  starting with zero), an optional fraction and an optional exponent. The fraction and
  the exponent are scanned as text: \<open>Some\<close> the part (empty when it is not there) and
  what follows it, \<open>None\<close> when a digit is missing after the point or the exponent sign.
\<close>

definition scan_fraction :: "string \<Rightarrow> (string \<times> string) option" where
  "scan_fraction s =
     (case s of
        [] \<Rightarrow> Some ([], [])
      | c # cs \<Rightarrow>
          if c = CHR ''.'' then
            (if takeWhile is_digit cs = [] then None
             else Some (c # takeWhile is_digit cs, dropWhile is_digit cs))
          else Some ([], s))"

definition scan_exponent :: "string \<Rightarrow> (string \<times> string) option" where
  "scan_exponent s =
     (case s of
        [] \<Rightarrow> Some ([], [])
      | c # cs \<Rightarrow>
          if c = CHR ''e'' \<or> c = CHR ''E'' then
            (let sign = (case cs of
                           [] \<Rightarrow> []
                         | d # _ \<Rightarrow> if d = CHR ''+'' \<or> d = CHR ''-'' then [d] else []);
                 ds = drop (length sign) cs
             in if takeWhile is_digit ds = [] then None
                else Some (c # sign @ takeWhile is_digit ds, dropWhile is_digit ds))
          else Some ([], s))"

definition parse_number :: "string \<Rightarrow> (js_value \<times> string) option" where
  "parse_number s =
     (let neg = (case s of [] \<Rightarrow> False | c # _ \<Rightarrow> c = CHR ''-'');
          s1 = (if neg then tl s else s);
          ds = takeWhile is_digit s1;
          n = foldl (\<lambda>acc d. 10 * acc + digit_val d) 0 ds
      in if ds = [] \<or> (length ds > 1 \<and> hd ds = CHR ''0'') then None
         else case scan_fraction (dropWhile is_digit s1) of
                None \<Rightarrow> None
              | Some (frac, s3) \<Rightarrow>
                  (case scan_exponent s3 of
                     None \<Rightarrow> None
                   | Some (ex, s4) \<Rightarrow>
                       if frac = [] \<and> ex = []
                       then Some (JNumber (if neg then - int n else int n), s4)
                       else Some (JFloat ((if neg then ''-'' else []) @ ds @ frac @ ex), s4)))"

definition parse_literal :: "string \<Rightarrow> js_value \<Rightarrow> string \<Rightarrow> (js_value \<times> string) option" where
  "parse_literal word v s =
     (if take (length word) s = word then Some (v, drop (length word) s) else None)"

text \<open>
  The value grammar, by recursive descent. Each call spends one unit of fuel; a text
  of length n needs no more than 2 * n units, and \<open>JSON_parse\<close> gives 2 * n + 2
  (lemma \<open>JSON_parse_enough_fuel\<close> below). A repeated member name keeps its first
  place and takes the last value.
\<close>

fun parse_value :: "nat \<Rightarrow> string \<Rightarrow> (js_value \<times> string) option"
  and parse_elements :: "nat \<Rightarrow> string \<Rightarrow> (js_value list \<times> string) option"
  and parse_members :: "nat \<Rightarrow> string \<Rightarrow> ((string \<times> js_value) list \<times> string) option"
where
  "parse_value 0 s = None"
| "parse_value (Suc fuel) s =
     (case skip_ws s of
        [] \<Rightarrow> None
      | c # cs \<Rightarrow>
          if c = dquote then
            (case parse_string cs of
               None \<Rightarrow> None
             | Some (str, r) \<Rightarrow> Some (JString str, r))
          else if c = CHR ''['' then
            (case skip_ws cs of
               [] \<Rightarrow> None
             | d # ds \<Rightarrow>
                 if d = CHR '']'' then Some (JArray [], ds)
                 else (case parse_elements fuel cs of
                         None \<Rightarrow> None
                       | Some (vs, r) \<Rightarrow> Some (JArray vs, r)))
          else if c = CHR ''{'' then
            (case skip_ws cs of
               [] \<Rightarrow> None
             | d # ds \<Rightarrow>
                 if d = CHR ''}'' then Some (JObject [], ds)
                 else (case parse_members fuel cs of
                         None \<Rightarrow> None
                       | Some (ms, r) \<Rightarrow>
                           Some (JObject (foldl (\<lambda>acc m. AList.update (fst m) (snd m) acc) [] ms), r)))
          else if c = CHR ''t'' then parse_literal ''true'' (JBool True) (c # cs)
          else if c = CHR ''f'' then parse_literal ''false'' (JBool False) (c # cs)
          else if c = CHR ''n'' then parse_literal ''null'' JNull (c # cs)
          else parse_number (c # cs))"
| "parse_elements 0 s = None"
| "parse_elements (Suc fuel) s =
     (case parse_value fuel s of
        None \<Rightarrow> None
      | Some (v, r) \<Rightarrow>
          (case skip_ws r of
             [] \<Rightarrow> None
           | d # ds \<Rightarrow>
               if d = CHR '']'' then Some ([v], ds)
               else if d = CHR '','' then
                 (case parse_elements fuel ds of
                    None \<Rightarrow> None
                  | Some (vs, r') \<Rightarrow> Some (v # vs, r'))
               else None))"
| "parse_members 0 s = None"
| "parse_members (Suc fuel) s =
     (case skip_ws s of
        [] \<Rightarrow> None
      | q # qs \<Rightarrow>
          if q \<noteq> dquote then None
          else (case parse_string qs of
                  None \<Rightarrow> None
                | Some (k, r) \<Rightarrow>
                    (case skip_ws r of
                       [] \<Rightarrow> None
                     | col # r1 \<Rightarrow>
                         if col \<noteq> CHR '':'' then None
                         else (case parse_value fuel r1 of
                                 None \<Rightarrow> None
                               | Some (v, r2) \<Rightarrow>
                                   (case skip_ws r2 of
                                      [] \<Rightarrow> None
                                    | d # ds \<Rightarrow>
                                        if d = CHR ''}'' then Some ([(k, v)], ds)
                                        else if d = CHR '','' then
                                          (case parse_members fuel ds of
                                             None \<Rightarrow> None
                                           | Some (ms, r') \<Rightarrow> Some ((k, v) # ms, r'))
                                        else None)))))"

text \<open>
  \<^verbatim>\<open>JSON.parse(text)\<close>: \<open>Some\<close> the value when the whole text is one JSON value
  between optional white space, \<open>None\<close> when \<^verbatim>\<open>JSON.parse\<close> throws a
  \<^verbatim>\<open>SyntaxError\<close>.
\<close>

definition JSON_parse :: "string \<Rightarrow> js_value option" where
  "JSON_parse text =
     (case parse_value (2 * length text + 2) text of
        None \<Rightarrow> None
      | Some (v, r) \<Rightarrow> if skip_ws r = [] then Some v else None)"

section \<open>Input accumulators\<close>

text \<open>
  A chunk is a \<^verbatim>\<open>Buffer\<close> or a string; \<^verbatim>\<open>data.toString()\<close> reads a buffer as
  text (byte for byte here, which is exact for ASCII).
\<close>

datatype chunk = BufferChunk string | StringChunk string

fun chunk_toString :: "chunk \<Rightarrow> string" where
  "chunk_toString (BufferChunk bytes) = bytes"
| "chunk_toString (StringChunk s) = s"

text \<open>
  The three handlers with their private state: the list of buffers, or the text so far.
  \<^verbatim>\<open>
  class JSONInputHandler extends InputHandler {
      private str = '';
      pushData(data: Buffer | string): void { this.str += data.toString(); }
      getBody(): unknown {
          try { return JSON.parse(this.str); } catch (e) { return this.str; }
      }
  }
  \<close>
\<close>

datatype InputHandler =
    BufferInputHandler "string list"
  | JSONInputHandler string
  | StringInputHandler string

fun pushData :: "InputHandler \<Rightarrow> chunk \<Rightarrow> InputHandler" where
  "pushData (BufferInputHandler buffers) data =
     BufferInputHandler (buffers @ [chunk_toString data])"
| "pushData (JSONInputHandler str) data = JSONInputHandler (str @ chunk_toString data)"
| "pushData (StringInputHandler str) data = StringInputHandler (str @ chunk_toString data)"

fun getBody :: "InputHandler \<Rightarrow> js_value" where
  "getBody (BufferInputHandler buffers) = JBuffer (concat buffers)"
| "getBody (JSONInputHandler str) =
     (case JSON_parse str of Some v \<Rightarrow> v | None \<Rightarrow> JString str)"
| "getBody (StringInputHandler str) = JString str"

datatype inputMode = ModeBuffer | ModeString | ModeJSON

fun getInputHandler :: "inputMode \<Rightarrow> InputHandler" where
  "getInputHandler ModeBuffer = BufferInputHandler []"
| "getInputHandler ModeString = StringInputHandler []"
| "getInputHandler ModeJSON = JSONInputHandler []"

section \<open>Invocation context and gateway view\<close>

text \<open>
  \<^verbatim>\<open>
  class Context {
      responseHeaders: FnHeaders = {};
      responseContentType?: string;
      constructor(public config: FnConfig, public body: unknown, public headers: FnHeaders) {}
      ...
  }
  \<close>
  \<open>responseContentType\<close> is a plain field; \<open>None\<close> is \<^verbatim>\<open>undefined\<close>.
\<close>

record Context =
  config :: "(string \<times> string) list"
  body :: js_value
  headers :: FnHeaders
  responseHeaders :: FnHeaders
  responseContentType :: "string option"

definition new_Context :: "(string \<times> string) list \<Rightarrow> js_value \<Rightarrow> FnHeaders \<Rightarrow> Context" where
  "new_Context cfg b hs =
     \<lparr>config = cfg, body = b, headers = hs, responseHeaders = [], responseContentType = None\<rparr>"

text \<open>\<^verbatim>\<open>const h = this.headers[this.canonHeader(key)]; return h ? h[0] : null;\<close>\<close>

definition Context_getHeader :: "Context \<Rightarrow> string \<Rightarrow> string option" where
  "Context_getHeader ctx key =
     (case map_of (headers ctx) (canonHeader key) of
        Some (v # _) \<Rightarrow> Some v
      | _ \<Rightarrow> None)"

text \<open>\<^verbatim>\<open>this.responseHeaders[this.canonHeader(key)] = values;\<close>\<close>

definition Context_setResponseHeader :: "Context \<Rightarrow> string \<Rightarrow> string list \<Rightarrow> Context" where
  "Context_setResponseHeader ctx key vals =
     ctx\<lparr>responseHeaders := AList.update (canonHeader key) vals (responseHeaders ctx)\<rparr>"

text \<open>
  \<^verbatim>\<open>
  const ckey = this.canonHeader(key);
  if (!this.responseHeaders[ckey]) { this.responseHeaders[ckey] = []; }
  this.responseHeaders[ckey].push(...values);
  \<close>
\<close>

definition Context_addResponseHeader :: "Context \<Rightarrow> string \<Rightarrow> string list \<Rightarrow> Context" where
  "Context_addResponseHeader ctx key vals =
     (let ckey = canonHeader key;
          old = (case map_of (responseHeaders ctx) ckey of None \<Rightarrow> [] | Some vs \<Rightarrow> vs)
      in ctx\<lparr>responseHeaders := AList.update ckey (old @ vals) (responseHeaders ctx)\<rparr>)"

text \<open>
  The gateway view is a wrapper around the context and owns no state.
  \<^verbatim>\<open>
  setResponseHeader(key: string, ...values: string[]): void {
      if (this.canonHeader(key) === 'Content-Type') {
          this.ctx.responseContentType = values[0];
      } else {
          this.ctx.setResponseHeader(`Fn-Http-H-${key}`, ...values);
      }
  }
  addResponseHeader(key: string, ...values: string[]): void {
      this.ctx.addResponseHeader(`Fn-Http-H-${key}`, ...values);
  }
  \<close>
  \<^verbatim>\<open>values[0]\<close> of an empty argument list is \<^verbatim>\<open>undefined\<close>.
\<close>

definition HTTPGatewayContext_setResponseHeader ::
    "Context \<Rightarrow> string \<Rightarrow> string list \<Rightarrow> Context" where
  "HTTPGatewayContext_setResponseHeader ctx key vals =
     (if canonHeader key = ''Content-Type''
      then ctx\<lparr>responseContentType := (case vals of [] \<Rightarrow> None | v # _ \<Rightarrow> Some v)\<rparr>
      else Context_setResponseHeader ctx (''Fn-Http-H-'' @ key) vals)"

definition HTTPGatewayContext_addResponseHeader ::
    "Context \<Rightarrow> string \<Rightarrow> string list \<Rightarrow> Context" where
  "HTTPGatewayContext_addResponseHeader ctx key vals =
     Context_addResponseHeader ctx (''Fn-Http-H-'' @ key) vals"

definition HTTPGatewayContext_requestURL :: "Context \<Rightarrow> string" where
  "HTTPGatewayContext_requestURL ctx =
     (case Context_getHeader ctx ''Fn-Http-Request-Url'' of None \<Rightarrow> [] | Some u \<Rightarrow> u)"

definition HTTPGatewayContext_method :: "Context \<Rightarrow> string" where
  "HTTPGatewayContext_method ctx =
     (case Context_getHeader ctx ''Fn-Http-Method'' of None \<Rightarrow> [] | Some m \<Rightarrow> m)"

section \<open>The outer transport response\<close>

text \<open>
  An error value with its name and message; \<^verbatim>\<open>error.toString()\<close> joins them.
\<close>

datatype js_error = JsError string string

fun error_toString :: "js_error \<Rightarrow> string" where
  "error_toString (JsError name msg) = (if msg = [] then name else name @ '': '' @ msg)"

text \<open>
  A step that may throw: \<open>Ok\<close> the state it leaves, or \<open>Threw\<close> the error and the
  state at the throw.
\<close>

datatype 'a outcome = Ok 'a | Threw js_error 'a

fun and_then :: "'a outcome \<Rightarrow> ('a \<Rightarrow> 'a outcome) \<Rightarrow> 'a outcome" where
  "and_then (Ok x) f = f x"
| "and_then (Threw e x) f = Threw e x"

fun state_of :: "'a outcome \<Rightarrow> 'a" where
  "state_of (Ok x) = x"
| "state_of (Threw e x) = x"

text \<open>
  What the adapter uses of \<^verbatim>\<open>http.ServerResponse\<close>: the headers set so far, under
  their lower-case names, with the name as given and the values; the status line once
  \<^verbatim>\<open>writeHead\<close> has run; the chunks written; and how often \<^verbatim>\<open>end\<close> was called.
  Once the status line is written, \<^verbatim>\<open>setHeader\<close>, \<^verbatim>\<open>removeHeader\<close> and
  \<^verbatim>\<open>writeHead\<close> throw. Only the first \<^verbatim>\<open>end\<close> writes; nothing is written after it.

  \<^verbatim>\<open>setHeader\<close> validates what it is given, in this order: the status line must not be
  written yet; the name must be a non-empty HTTP token (letters, digits and
  \<^verbatim>\<open>! # $ % & ' * + - . ^ _ ` | ~\<close>), or it throws \<^verbatim>\<open>ERR_INVALID_HTTP_TOKEN\<close>; and
  every value must be free of the characters a header cannot hold, or it throws
  \<^verbatim>\<open>ERR_INVALID_CHAR\<close>. A header may hold the tab, the characters from the space to the
  tilde, and the code units from 0x80 to 0xFF. Text outside ASCII stands for its UTF-8
  bytes here: a code unit up to 0xFF is a pair of bytes that starts with 0xC2 or 0xC3,
  and a code unit above it starts with a byte of 0xC4 or more, so the bytes below 0xC4
  are the ones accepted. \<^verbatim>\<open>writeHead\<close> wants a status code from 100 to 999 and a
  status message of such characters.
\<close>

record ServerResponse =
  sentHeaders :: "(string \<times> string \<times> string list) list"
  statusLine :: "(nat \<times> string) option"
  written :: "string list"
  endCalls :: nat

definition new_ServerResponse :: ServerResponse where
  "new_ServerResponse = \<lparr>sentHeaders = [], statusLine = None, written = [], endCalls = 0\<rparr>"

definition ERR_HTTP_HEADERS_SENT :: js_error where
  "ERR_HTTP_HEADERS_SENT = JsError ''Error'' ''Cannot set headers after they are sent to the client''"

definition ERR_INVALID_HTTP_TOKEN :: js_error where
  "ERR_INVALID_HTTP_TOKEN = JsError ''TypeError'' ''Header name must be a valid HTTP token''"

definition ERR_INVALID_CHAR :: js_error where
  "ERR_INVALID_CHAR = JsError ''TypeError'' ''Invalid character in header content''"

definition ERR_HTTP_INVALID_STATUS_CODE :: js_error where
  "ERR_HTTP_INVALID_STATUS_CODE = JsError ''RangeError'' ''Invalid status code''"

definition is_token_char :: "char \<Rightarrow> bool" where
  "is_token_char c \<longleftrightarrow>
     (let n = (of_char c :: nat) in
      (48 \<le> n \<and> n \<le> 57) \<or> (65 \<le> n \<and> n \<le> 90) \<or> (97 \<le> n \<and> n \<le> 122) \<or>
      n \<in> {33, 35, 36, 37, 38, 39, 42, 43, 45, 46, 94, 95, 96, 124, 126})"

definition valid_header_name :: "string \<Rightarrow> bool" where
  "valid_header_name name \<longleftrightarrow> name \<noteq> [] \<and> list_all is_token_char name"

definition is_header_char :: "char \<Rightarrow> bool" where
  "is_header_char c \<longleftrightarrow>
     (let n = (of_char c :: nat) in n = 9 \<or> (32 \<le> n \<and> n \<le> 126) \<or> (128 \<le> n \<and> n < 196))"

definition valid_header_text :: "string \<Rightarrow> bool" where
  "valid_header_text s \<longleftrightarrow> list_all is_header_char s"

text \<open>
  The value of a header is an array of strings (or one string, taken as the array of
  it); the check runs over the array read as text, its elements joined by commas.
\<close>

definition valid_header_value :: "string list \<Rightarrow> bool" where
  "valid_header_value vals \<longleftrightarrow> list_all valid_header_text vals"

definition setHeader :: "string \<Rightarrow> string list \<Rightarrow> ServerResponse \<Rightarrow> ServerResponse outcome" where
  "setHeader name vals resp =
     (if statusLine resp \<noteq> None then Threw ERR_HTTP_HEADERS_SENT resp
      else if \<not> valid_header_name name then Threw ERR_INVALID_HTTP_TOKEN resp
      else if \<not> valid_header_value vals then Threw ERR_INVALID_CHAR resp
      else Ok (resp\<lparr>sentHeaders := AList.update (toLowerCase name) (name, vals) (sentHeaders resp)\<rparr>))"

definition removeHeader :: "string \<Rightarrow> ServerResponse \<Rightarrow> ServerResponse outcome" where
  "removeHeader name resp =
     (if statusLine resp \<noteq> None then Threw ERR_HTTP_HEADERS_SENT resp
      else Ok (resp\<lparr>sentHeaders := AList.delete (toLowerCase name) (sentHeaders resp)\<rparr>))"

definition writeHead :: "nat \<Rightarrow> string \<Rightarrow> ServerResponse \<Rightarrow> ServerResponse outcome" where
  "writeHead code msg resp =
     (if statusLine resp \<noteq> None then Threw ERR_HTTP_HEADERS_SENT resp
      else if code < 100 \<or> code > 999 then Threw ERR_HTTP_INVALID_STATUS_CODE resp
      else if \<not> valid_header_text msg then Threw ERR_INVALID_CHAR resp
      else Ok (resp\<lparr>statusLine := Some (code, msg)\<rparr>))"

definition write_data :: "string \<Rightarrow> ServerResponse \<Rightarrow> ServerResponse" where
  "write_data data resp =
     (if endCalls resp > 0 then resp else resp\<lparr>written := written resp @ [data]\<rparr>)"

definition end_response :: "string option \<Rightarrow> ServerResponse \<Rightarrow> ServerResponse" where
  "end_response data resp =
     (case data of None \<Rightarrow> resp | Some d \<Rightarrow> write_data d resp)\<lparr>endCalls := Suc (endCalls resp)\<rparr>"

text \<open>The header of that name on the response, whatever the casing.\<close>

definition getSentHeader :: "ServerResponse \<Rightarrow> string \<Rightarrow> (string \<times> string list) option" where
  "getSentHeader resp name = map_of (sentHeaders resp) (toLowerCase name)"

definition sentBody :: "ServerResponse \<Rightarrow> string" where
  "sentBody resp = concat (written resp)"

section \<open>Result encoder\<close>

text \<open>
  The two identification strings are computed at load time from the version of the
  runtime and of the package; they are parameters here.
\<close>

record Runtime =
  fdkVersion :: string
  runtimeTag :: string


definition valid_Runtime :: "Runtime \<Rightarrow> bool" where
  "valid_Runtime rt \<longleftrightarrow>
     valid_header_value [fdkVersion rt] \<and> valid_header_value [runtimeTag rt]"

definition example_Runtime :: Runtime where
  "example_Runtime =
     \<lparr>fdkVersion = ''fdk-node/0.0.1 (njsv=v20.11.0)'', runtimeTag = ''node/20.11.0''\<rparr>"

text \<open>
  What user code may return: a plain value, or one of the two wrappers, the subclasses
  of \<^verbatim>\<open>FnResult\<close>. A stream is the chunks it delivers and how it finishes: with
  \<^verbatim>\<open>'end'\<close> (\<open>None\<close>) or with \<^verbatim>\<open>'error'\<close>.
\<close>

datatype result_value =
    Plain js_value
  | RawResult js_value
  | StreamResult "string list" "js_error option"

text \<open>\<^verbatim>\<open>result != null\<close>; a wrapper is an object.\<close>

fun result_not_null :: "result_value \<Rightarrow> bool" where
  "result_not_null (Plain v) = (\<not> is_nullish v)"
| "result_not_null _ = True"

definition startsWith :: "string \<Rightarrow> string \<Rightarrow> bool" where
  "startsWith s prefix \<longleftrightarrow> take (length prefix) s = prefix"

fun str_includes :: "string \<Rightarrow> string \<Rightarrow> bool" where
  "str_includes [] needle = (needle = [])"
| "str_includes (c # cs) needle = (startsWith (c # cs) needle \<or> str_includes cs needle)"

text \<open>A string is truthy when it is there and not empty.\<close>

definition truthy :: "string option \<Rightarrow> bool" where
  "truthy s \<longleftrightarrow> s \<noteq> None \<and> s \<noteq> Some []"

text \<open>
  \<^verbatim>\<open>
  for (const key in ctx.responseHeaders) {
      if (ctx.responseHeaders[key]) { resp.setHeader(key, ctx.responseHeaders[key]); }
  }
  \<close>
  An array is truthy, so every header is set.
\<close>

fun setHeaders_loop :: "FnHeaders \<Rightarrow> ServerResponse \<Rightarrow> ServerResponse outcome" where
  "setHeaders_loop [] resp = Ok resp"
| "setHeaders_loop ((key, vals) # rest) resp =
     and_then (setHeader key vals resp) (setHeaders_loop rest)"

text \<open>The bytes \<^verbatim>\<open>resp.write\<close> accepts: a string or a buffer; anything else throws.\<close>

fun writable_bytes :: "js_value \<Rightarrow> string option" where
  "writable_bytes (JString s) = Some s"
| "writable_bytes (JBuffer bytes) = Some bytes"
| "writable_bytes _ = None"

definition ERR_INVALID_ARG_TYPE :: js_error where
  "ERR_INVALID_ARG_TYPE = JsError ''TypeError'' ''The chunk argument must be of type string or an instance of Buffer''"

text \<open>
  The last part of \<^verbatim>\<open>sendResult\<close>, after the status line:
  \<^verbatim>\<open>
  if (result != null) {
      if (result instanceof FnResult) { p = Promise.resolve(result.writeResult(ctx, resp)); }
      else if (isJSON) { p = Promise.resolve(resp.write(JSON.stringify(result))); }
      else if (typeof result === 'string' || Buffer.isBuffer(result)) {
          p = Promise.resolve(resp.write(result));
      }
  }
  if (p) { p.then(() => resp.end(), (err) => { console.error(...); resp.end(); }); }
  else { resp.end(); }
  \<close>
  \<^verbatim>\<open>RawResult.writeResult\<close> is \<^verbatim>\<open>resp.write(this.data)\<close>.
  \<^verbatim>\<open>StreamResult.writeResult\<close> pipes the stream into the response and settles on
  \<^verbatim>\<open>'end'\<close> or \<^verbatim>\<open>'error'\<close>; \<^verbatim>\<open>pipe\<close> itself ends its destination when the stream
  ends, and not when it fails.
\<close>

fun writeBody :: "result_value \<Rightarrow> bool \<Rightarrow> ServerResponse \<Rightarrow> ServerResponse outcome" where
  "writeBody (Plain v) isJSON resp =
     (if is_nullish v then Ok (end_response None resp)
      else if isJSON then Ok (end_response None (write_data (JSON_stringify v) resp))
      else (case writable_bytes v of
              Some bytes \<Rightarrow> Ok (end_response None (write_data bytes resp))
            | None \<Rightarrow> Ok (end_response None resp)))"
| "writeBody (RawResult d) isJSON resp =
     (case writable_bytes d of
        Some bytes \<Rightarrow> Ok (end_response None (write_data bytes resp))
      | None \<Rightarrow> Threw ERR_INVALID_ARG_TYPE resp)"
| "writeBody (StreamResult chunks None) isJSON resp =
     Ok (end_response None (end_response None (fold write_data chunks resp)))"
| "writeBody (StreamResult chunks (Some e)) isJSON resp =
     Ok (end_response None (fold write_data chunks resp))"

text \<open>
  \<^verbatim>\<open>
  function sendResult(ctx: Context, resp: http.ServerResponse, result: unknown): void {
      const responseContentType = ctx.responseContentType;
      let isJSON = false;
      if (!responseContentType && result != null) {
          ctx.responseContentType = 'application/json';
          isJSON = true;
      } else if (responseContentType &&
          (responseContentType.startsWith('application/json') ||
              responseContentType.includes('+json'))) {
          isJSON = true;
      }
      for (const key in ctx.responseHeaders) { ... resp.setHeader(key, ...) ... }
      resp.removeHeader('Content-length');
      resp.setHeader('Fn-Fdk-Version', fdkVersion);
      resp.setHeader('Fn-Fdk-Runtime', runtimeTag);
      resp.writeHead(200, 'OK');
      ...
  }
  \<close>
  The result is the context as the function leaves it and the response, or the error
  thrown with the response at the throw.
\<close>

definition sendResult_isJSON :: "Context \<Rightarrow> result_value \<Rightarrow> bool" where
  "sendResult_isJSON ctx result =
     (let responseContentType = responseContentType ctx in
      if \<not> truthy responseContentType \<and> result_not_null result then True
      else truthy responseContentType \<and>
           (startsWith (the responseContentType) ''application/json'' \<or>
            str_includes (the responseContentType) ''+json''))"

definition sendResult ::
    "Runtime \<Rightarrow> Context \<Rightarrow> ServerResponse \<Rightarrow> result_value \<Rightarrow> Context \<times> ServerResponse outcome" where
  "sendResult rt ctx resp result =
     (let isJSON = sendResult_isJSON ctx result;
          ctx' = (if \<not> truthy (responseContentType ctx) \<and> result_not_null result
                  then ctx\<lparr>responseContentType := Some ''application/json''\<rparr> else ctx)
      in (ctx',
          and_then (and_then (and_then (and_then (and_then
            (setHeaders_loop (responseHeaders ctx') resp)
            (removeHeader ''Content-length''))
            (setHeader ''Fn-Fdk-Version'' [fdkVersion rt]))
            (setHeader ''Fn-Fdk-Runtime'' [runtimeTag rt]))
            (writeHead 200 ''OK''))
            (writeBody result isJSON)))"

text \<open>
  \<^verbatim>\<open>
  function sendJSONError(resp, code, error: { message: string; detail: string }): void {
      const errStr = JSON.stringify(error);
      console.warn(`Error ${code}: ${errStr}`);
      resp.setHeader('Content-Type', 'application/json');
      resp.writeHead(code, 'Internal Error');
      resp.end(errStr);
  }
  \<close>
\<close>

definition sendJSONError ::
    "ServerResponse \<Rightarrow> nat \<Rightarrow> string \<Rightarrow> string \<Rightarrow> ServerResponse outcome" where
  "sendJSONError resp code message detail =
     (let errStr = JSON_stringify (JObject [(''message'', JString message), (''detail'', JString detail)])
      in and_then (and_then
           (setHeader ''Content-Type'' [''application/json''] resp)
           (writeHead code ''Internal Error''))
           (\<lambda>r. Ok (end_response (Some errStr) r)))"

definition fnFunctionExceptionMessage :: string where
  "fnFunctionExceptionMessage = ''Exception in function, consult logs for details''"

definition fnFunctionBadRequestErrorMessage :: string where
  "fnFunctionBadRequestErrorMessage = ''Bad request''"

definition handleFunctionError :: "js_error \<Rightarrow> ServerResponse \<Rightarrow> ServerResponse outcome" where
  "handleFunctionError error resp =
     sendJSONError resp 502 fnFunctionExceptionMessage (error_toString error)"

text \<open>
  What a call of the user function comes to: it returns a value (at once or as a promise
  that is fulfilled), it throws or its promise is rejected, or its promise stays pending
  for ever. The context is the one it leaves, with the response headers it has set.
\<close>

datatype handler_outcome =
    Returns result_value Context
  | Throws js_error
  | Pending

type_synonym FnHandler = "js_value \<Rightarrow> Context \<Rightarrow> handler_outcome"

text \<open>
  \<^verbatim>\<open>
  try {
      Promise.resolve(fnfunction(ctx.body, ctx))
          .then((result) => sendResult(ctx, resp, result))
          .catch((error) => handleFunctionError(error, resp));
  } catch (error) { handleFunctionError(error as Error, resp); }
  \<close>
  An error thrown by \<^verbatim>\<open>sendResult\<close> goes to the same \<^verbatim>\<open>catch\<close>; an error thrown by
  \<^verbatim>\<open>handleFunctionError\<close> itself is handled by nobody.
\<close>

definition invokeUserFunction ::
    "Runtime \<Rightarrow> FnHandler \<Rightarrow> Context \<Rightarrow> ServerResponse \<Rightarrow> ServerResponse outcome" where
  "invokeUserFunction rt fnfunction ctx resp =
     (case fnfunction (body ctx) ctx of
        Returns result ctx' \<Rightarrow>
          (case snd (sendResult rt ctx' resp result) of
             Ok resp' \<Rightarrow> Ok resp'
           | Threw error resp' \<Rightarrow> handleFunctionError error resp')
      | Throws error \<Rightarrow> handleFunctionError error resp
      | Pending \<Rightarrow> Ok resp)"

section \<open>Middleware shim\<close>

text \<open>
  The synthetic response: the object built by \<^verbatim>\<open>createExpressResponse\<close>, with its
  fields \<^verbatim>\<open>_headers\<close>, \<^verbatim>\<open>_status\<close>, \<^verbatim>\<open>_body\<close>, \<^verbatim>\<open>_finished\<close> and the promise
  \<^verbatim>\<open>_promise\<close>. A promise is settled once: \<open>shim_resolved\<close> is \<open>None\<close> while it is
  pending and then holds the status and the body of the first \<^verbatim>\<open>_resolve\<close>. The
  headers of the resolved value are the object \<^verbatim>\<open>_headers\<close> itself, not a copy, so
  they are read from the shim when the value is used.
\<close>

record ExpressShim =
  shim_headers :: "(string \<times> string) list"
  shim_status :: nat
  shim_body :: "string list"
  shim_finished :: bool
  shim_resolved :: "(nat \<times> string) option"

definition createExpressResponse :: ExpressShim where
  "createExpressResponse =
     \<lparr>shim_headers = [], shim_status = 200, shim_body = [], shim_finished = False,
      shim_resolved = None\<rparr>"

definition shim_setHeader :: "string \<Rightarrow> string \<Rightarrow> ExpressShim \<Rightarrow> ExpressShim" where
  "shim_setHeader key v sh = sh\<lparr>shim_headers := AList.update (toLowerCase key) v (shim_headers sh)\<rparr>"

definition shim_writeHead :: "nat \<Rightarrow> (string \<times> string) list \<Rightarrow> ExpressShim \<Rightarrow> ExpressShim" where
  "shim_writeHead st hs sh = fold (\<lambda>h. shim_setHeader (fst h) (snd h)) hs (sh\<lparr>shim_status := st\<rparr>)"

definition shim_write :: "string \<Rightarrow> ExpressShim \<Rightarrow> ExpressShim" where
  "shim_write data sh = sh\<lparr>shim_body := shim_body sh @ [data]\<rparr>"

text \<open>
  \<^verbatim>\<open>
  end(chunk?: Buffer | string): void {
      if (chunk) { this.write(chunk); }
      this._finished = true;
      this._resolve({ status: this._status, headers: this._headers,
                      body: Buffer.concat(this._body) });
  }
  \<close>
\<close>

definition shim_end :: "string option \<Rightarrow> ExpressShim \<Rightarrow> ExpressShim" where
  "shim_end data sh =
     (let sh1 = (case data of None \<Rightarrow> sh | Some d \<Rightarrow> if d \<noteq> [] then shim_write d sh else sh);
          sh2 = sh1\<lparr>shim_finished := True\<rparr>
      in case shim_resolved sh2 of
           None \<Rightarrow> sh2\<lparr>shim_resolved := Some (shim_status sh2, concat (shim_body sh2))\<rparr>
         | Some _ \<Rightarrow> sh2)"

text \<open>
  \<^verbatim>\<open>interface ExpressResponse { status: number; headers: Record<string, string>; body: Buffer; }\<close>
  The body is typed as a buffer, but \<^verbatim>\<open>sendExpressResponse\<close> inspects it at run time,
  so it is a value here.
\<close>

record ExpressResponse =
  res_status :: nat
  res_headers :: "(string \<times> string) list"
  res_body :: js_value

text \<open>
  \<^verbatim>\<open>sendExpressResponse\<close> is called with a settled \<^verbatim>\<open>ExpressResponse\<close>, and in
  \<^verbatim>\<open>express404Handler\<close> with the synthetic response object itself, which has no field
  \<^verbatim>\<open>headers\<close>.
\<close>

datatype send_arg = Settled ExpressResponse | ShimObject

definition TypeError_headers :: js_error where
  "TypeError_headers = JsError ''TypeError'' ''Cannot read properties of undefined''"

definition SyntaxError_JSON :: js_error where
  "SyntaxError_JSON = JsError ''SyntaxError'' ''Unexpected token in JSON''"

text \<open>
  The body handed to the JSON path:
  \<^verbatim>\<open>
  if (Buffer.isBuffer(result.body)) { jsonBody = JSON.parse(result.body.toString()); }
  else if (typeof result.body === 'object') { jsonBody = result.body; }
  else { jsonBody = JSON.parse(String(result.body)); }
  \<close>
  \<open>None\<close> when \<^verbatim>\<open>JSON.parse\<close> throws.
\<close>

fun jsonBody_of :: "js_value \<Rightarrow> js_value option" where
  "jsonBody_of (JBuffer bytes) = JSON_parse bytes"
| "jsonBody_of (JString s) = JSON_parse s"
| "jsonBody_of (JNumber i) = JSON_parse (Number_toString i)"
| "jsonBody_of (JFloat lit) = JSON_parse lit"
| "jsonBody_of (JBool b) = JSON_parse (if b then ''true'' else ''false'')"
| "jsonBody_of JUndefined = JSON_parse ''undefined''"
| "jsonBody_of v = Some v"

text \<open>
  \<^verbatim>\<open>
  function sendExpressResponse(result: ExpressResponse, ctx: Context, resp): void {
      const contentType = result.headers['content-type']?.[0] || '';
      const isJson = contentType.includes('application/json') ||
          (typeof result.body === 'object');
      if (result.status) { ctx.setResponseHeader('Fn-Http-Status', result.status.toString()); }
      for (const [key, value] of Object.entries(result.headers)) {
          if (key.toLowerCase() !== 'content-length') {
              ctx.setResponseHeader(`Fn-Http-H-${key}`, value);
          }
      }
      if (isJson) {
          ...
          ctx.responseContentType = 'application/json';
          sendResult(ctx, resp, jsonBody);
      } else {
          ctx.responseContentType = contentType || 'application/octet-stream';
          sendResult(ctx, resp, result.body);
      }
  }
  \<close>
  A header value is a string, and \<^verbatim>\<open>[0]\<close> of a string is its first character.
\<close>

definition sendExpressResponse_contentType :: "ExpressResponse \<Rightarrow> string" where
  "sendExpressResponse_contentType result =
     (case map_of (res_headers result) ''content-type'' of
        None \<Rightarrow> []
      | Some v \<Rightarrow> take 1 v)"

definition sendExpressResponse_isJson :: "ExpressResponse \<Rightarrow> bool" where
  "sendExpressResponse_isJson result \<longleftrightarrow>
     str_includes (sendExpressResponse_contentType result) ''application/json'' \<or>
     typeof_object (res_body result)"

definition sendExpressResponse ::
    "Runtime \<Rightarrow> send_arg \<Rightarrow> Context \<Rightarrow> ServerResponse \<Rightarrow> Context \<times> ServerResponse outcome" where
  "sendExpressResponse rt arg ctx resp =
     (case arg of
        ShimObject \<Rightarrow> (ctx, Threw TypeError_headers resp)
      | Settled result \<Rightarrow>
          (let contentType = sendExpressResponse_contentType result;
               isJson = sendExpressResponse_isJson result;
               ctx1 = (if res_status result \<noteq> 0
                       then Context_setResponseHeader ctx ''Fn-Http-Status''
                              [Number_toString (int (res_status result))]
                       else ctx);
               ctx2 = fold (\<lambda>h c. if toLowerCase (fst h) \<noteq> ''content-length''
                                    then Context_setResponseHeader c (''Fn-Http-H-'' @ fst h) [snd h]
                                    else c)
                        (res_headers result) ctx1
           in if isJson then
                (case jsonBody_of (res_body result) of
                   None \<Rightarrow> (ctx2, Threw SyntaxError_JSON resp)
                 | Some jsonBody \<Rightarrow>
                     sendResult rt (ctx2\<lparr>responseContentType := Some ''application/json''\<rparr>)
                       resp (Plain jsonBody))
              else
                sendResult rt
                  (ctx2\<lparr>responseContentType :=
                      Some (if contentType \<noteq> [] then contentType else ''application/octet-stream'')\<rparr>)
                  resp (Plain (res_body result))))"

definition handleExpressError :: "js_error \<Rightarrow> ServerResponse \<Rightarrow> ServerResponse outcome" where
  "handleExpressError error resp =
     sendJSONError resp 500 ''Internal Server Error'' (error_toString error)"

text \<open>
  \<^verbatim>\<open>String(v)\<close>, and the body of the synthetic request,
  \<^verbatim>\<open>ctx.body instanceof Buffer ? ctx.body : Buffer.from(String(ctx.body || ''))\<close>.
\<close>

fun String_of :: "js_value \<Rightarrow> string" where
  "String_of JUndefined = ''undefined''"
| "String_of JNull = ''null''"
| "String_of (JBool b) = (if b then ''true'' else ''false'')"
| "String_of (JNumber i) = Number_toString i"
| "String_of (JFloat lit) = lit"
| "String_of (JString s) = s"
| "String_of (JArray vs) =
     join '','' (map (\<lambda>v. if is_nullish v then [] else String_of v) vs)"
| "String_of (JObject ms) = ''[object Object]''"
| "String_of (JBuffer bytes) = bytes"

fun falsy :: "js_value \<Rightarrow> bool" where
  "falsy JUndefined = True"
| "falsy JNull = True"
| "falsy (JBool b) = (\<not> b)"
| "falsy (JNumber i) = (i = 0)"
| "falsy (JString s) = (s = [])"
| "falsy _ = False"

definition request_body :: "js_value \<Rightarrow> string" where
  "request_body b =
     (case b of JBuffer bytes \<Rightarrow> bytes | _ \<Rightarrow> if falsy b then [] else String_of b)"

text \<open>
  The synthetic request. \<^verbatim>\<open>url.parse(requestURL).pathname\<close> is taken for a URL that is
  a path with an optional query or fragment; the parsed query is left out.
\<close>

record ExpressRequest =
  req_method :: string
  req_url :: string
  req_originalUrl :: string
  req_path :: string
  req_headers :: FnHeaders
  req_body :: string

definition pathname :: "string \<Rightarrow> string" where
  "pathname u = takeWhile (\<lambda>c. c \<noteq> CHR ''?'' \<and> c \<noteq> CHR ''#'') u"

definition createExpressRequest :: "Context \<Rightarrow> string \<Rightarrow> ExpressRequest" where
  "createExpressRequest ctx bytes =
     (let requestURL = (if HTTPGatewayContext_requestURL ctx \<noteq> []
                        then HTTPGatewayContext_requestURL ctx else ''/'');
          p = (if pathname requestURL \<noteq> [] then pathname requestURL else ''/'')
      in \<lparr>req_method = (if HTTPGatewayContext_method ctx \<noteq> []
                        then HTTPGatewayContext_method ctx else ''GET''),
          req_url = p, req_originalUrl = requestURL, req_path = p,
          req_headers = headers ctx, req_body = bytes\<rparr>)"

text \<open>
  What a middleware chain does with the pair it is called with, one list of steps for
  each turn of the event loop: the first list is what it does before the call
  \<^verbatim>\<open>app(req, res, next)\<close> returns, the later ones what it does from timers and other
  callbacks. A step calls a method of the synthetic response, calls \<^verbatim>\<open>next\<close> with or
  without an error, or throws. The reactions of a promise run after the turn that
  settles it.
\<close>

datatype shim_action =
    SetHeader string string
  | WriteHead nat "(string \<times> string) list"
  | Write string
  | End "string option"
  | Next "js_error option"
  | Throw js_error

type_synonym ExpressApp = "ExpressRequest \<Rightarrow> shim_action list list"

text \<open>
  The state of one exchange inside \<^verbatim>\<open>handleExpressRequest\<close>: the synthetic response,
  the flag \<^verbatim>\<open>responseHandled\<close>, whether the reaction \<^verbatim>\<open>completeResponse\<close> of
  \<^verbatim>\<open>res.waitForFinish().then(completeResponse).catch(handleError)\<close> has run, the
  context, the outer response, and an error nobody caught, which ends the process.
\<close>

record Exchange =
  x_res :: ExpressShim
  responseHandled :: bool
  x_reacted :: bool
  x_ctx :: Context
  x_resp :: ServerResponse
  x_uncaught :: "js_error option"

definition with_sent :: "Exchange \<Rightarrow> Context \<times> ServerResponse outcome \<Rightarrow> Exchange outcome" where
  "with_sent st sent =
     (case snd sent of
        Ok r \<Rightarrow> Ok (st\<lparr>x_ctx := fst sent, x_resp := r\<rparr>)
      | Threw e r \<Rightarrow> Threw e (st\<lparr>x_ctx := fst sent, x_resp := r\<rparr>))"

text \<open>
  \<^verbatim>\<open>
  const completeResponse = (result: ExpressResponse) => {
      if (responseHandled) return;
      responseHandled = true;
      sendExpressResponse(result, ctx, resp);
  };
  const handleError = (error: Error) => {
      if (responseHandled) return;
      responseHandled = true;
      handleExpressError(error, resp);
  };
  \<close>
\<close>

definition completeResponse :: "Runtime \<Rightarrow> ExpressResponse \<Rightarrow> Exchange \<Rightarrow> Exchange outcome" where
  "completeResponse rt result st =
     (if responseHandled st then Ok st
      else with_sent (st\<lparr>responseHandled := True\<rparr>)
             (sendExpressResponse rt (Settled result) (x_ctx st) (x_resp st)))"

definition handleError :: "js_error \<Rightarrow> Exchange \<Rightarrow> Exchange outcome" where
  "handleError error st =
     (if responseHandled st then Ok st
      else with_sent (st\<lparr>responseHandled := True\<rparr>)
             (x_ctx st, handleExpressError error (x_resp st)))"

text \<open>
  \<^verbatim>\<open>
  const express404Handler = () => {
      if (!responseHandled) {
          res.status(404).json({ error: 'Not Found',
                                 message: `Route ${req.method} ${req.path} not found` });
          sendExpressResponse(res, ctx, resp);
      }
  };
  \<close>
  \<^verbatim>\<open>status\<close> and \<^verbatim>\<open>json\<close> are methods the framework adds to the response: \<^verbatim>\<open>status\<close>
  sets the field \<^verbatim>\<open>statusCode\<close>, which the synthetic response does not have, and
  \<^verbatim>\<open>json\<close> sets the content type and ends the response with the serialized body.
\<close>

definition express404Handler :: "Runtime \<Rightarrow> ExpressRequest \<Rightarrow> Exchange \<Rightarrow> Exchange outcome" where
  "express404Handler rt req st =
     (if responseHandled st then Ok st
      else
        (let notFound = JObject [(''error'', JString ''Not Found''),
               (''message'', JString (''Route '' @ req_method req @ '' '' @ req_path req @ '' not found''))];
             sh = shim_end (Some (JSON_stringify notFound))
                    (shim_setHeader ''Content-Type'' ''application/json; charset=utf-8'' (x_res st));
             st1 = st\<lparr>x_res := sh\<rparr>
         in with_sent st1 (sendExpressResponse rt ShimObject (x_ctx st1) (x_resp st1))))"

text \<open>
  One step of the chain. The callback passed as \<^verbatim>\<open>next\<close> is
  \<^verbatim>\<open>
  (err?: any) => {
      if (err) { handleError(err); return; }
      if (!res._finished && !res.headersSent) { express404Handler() }
  }
  \<close>
  and \<^verbatim>\<open>res.headersSent\<close> is never set on the synthetic response.
\<close>

fun run_action :: "Runtime \<Rightarrow> ExpressRequest \<Rightarrow> shim_action \<Rightarrow> Exchange \<Rightarrow> Exchange outcome" where
  "run_action rt req (SetHeader key v) st = Ok (st\<lparr>x_res := shim_setHeader key v (x_res st)\<rparr>)"
| "run_action rt req (WriteHead code hs) st = Ok (st\<lparr>x_res := shim_writeHead code hs (x_res st)\<rparr>)"
| "run_action rt req (Write data) st = Ok (st\<lparr>x_res := shim_write data (x_res st)\<rparr>)"
| "run_action rt req (End data) st = Ok (st\<lparr>x_res := shim_end data (x_res st)\<rparr>)"
| "run_action rt req (Next (Some err)) st = handleError err st"
| "run_action rt req (Next None) st =
     (if \<not> shim_finished (x_res st) then express404Handler rt req st else Ok st)"
| "run_action rt req (Throw err) st = Threw err st"

fun run_actions :: "Runtime \<Rightarrow> ExpressRequest \<Rightarrow> shim_action list \<Rightarrow> Exchange \<Rightarrow> Exchange outcome" where
  "run_actions rt req [] st = Ok st"
| "run_actions rt req (a # as) st = and_then (run_action rt req a st) (run_actions rt req as)"

text \<open>An error that reaches the top of a turn is caught by nobody.\<close>

fun uncaught :: "Exchange outcome \<Rightarrow> Exchange" where
  "uncaught (Ok st) = st"
| "uncaught (Threw e st) = st\<lparr>x_uncaught := Some e\<rparr>"

text \<open>
  The first turn runs inside \<^verbatim>\<open>try { ... } catch (error) { handleError(error) }\<close>.
  In a later turn there is no such handler.
\<close>

definition first_turn :: "Runtime \<Rightarrow> ExpressRequest \<Rightarrow> shim_action list \<Rightarrow> Exchange \<Rightarrow> Exchange" where
  "first_turn rt req actions st =
     (case run_actions rt req actions st of
        Ok st' \<Rightarrow> st'
      | Threw e st' \<Rightarrow> uncaught (handleError e st'))"

definition later_turn :: "Runtime \<Rightarrow> ExpressRequest \<Rightarrow> shim_action list \<Rightarrow> Exchange \<Rightarrow> Exchange" where
  "later_turn rt req actions st =
     (if x_uncaught st \<noteq> None then st else uncaught (run_actions rt req actions st))"

text \<open>
  After a turn the reactions run: once the promise is resolved, \<^verbatim>\<open>completeResponse\<close>
  is called with the resolved value, and if it throws, \<^verbatim>\<open>handleError\<close> with the error.
\<close>

definition run_reactions :: "Runtime \<Rightarrow> Exchange \<Rightarrow> Exchange" where
  "run_reactions rt st =
     (if x_uncaught st \<noteq> None \<or> x_reacted st then st
      else case shim_resolved (x_res st) of
             None \<Rightarrow> st
           | Some settled \<Rightarrow>
               (case completeResponse rt
                       \<lparr>res_status = fst settled, res_headers = shim_headers (x_res st),
                        res_body = JBuffer (snd settled)\<rparr>
                       (st\<lparr>x_reacted := True\<rparr>) of
                  Ok st' \<Rightarrow> st'
                | Threw e st' \<Rightarrow> uncaught (handleError e st')))"

text \<open>
  \<^verbatim>\<open>
  function handleExpressRequest(app, ctx, resp): void {
      const body = ...; const req = createExpressRequest(ctx, body);
      const res = createExpressResponse();
      let responseHandled = false;
      ...
      res.waitForFinish().then(completeResponse).catch(handleError);
      try { (app as any)(req, res, (err?: any) => { ... }); }
      catch (error) { handleError(error as Error); }
  }
  \<close>
\<close>

definition handleExpressRequest ::
    "Runtime \<Rightarrow> ExpressApp \<Rightarrow> Context \<Rightarrow> ServerResponse \<Rightarrow> Exchange" where
  "handleExpressRequest rt app ctx resp =
     (let req = createExpressRequest ctx (request_body (body ctx));
          st0 = \<lparr>x_res = createExpressResponse, responseHandled = False, x_reacted = False,
                 x_ctx = ctx, x_resp = resp, x_uncaught = None\<rparr>
      in case app req of
           [] \<Rightarrow> run_reactions rt st0
         | turn # turns \<Rightarrow>
             fold (\<lambda>t st. run_reactions rt (later_turn rt req t st)) turns
               (run_reactions rt (first_turn rt req turn st0)))"

section \<open>Dispatch\<close>

text \<open>
  The incoming transport request: its method, URL and raw headers, the chunks of its
  body, and whether the body ends (\<open>None\<close>) or the stream fails with an error.
\<close>

record IncomingMessage =
  im_method :: string
  im_url :: string
  rawHeaders :: "(string \<times> string) list"
  im_chunks :: "chunk list"
  im_error :: "js_error option"

text \<open>The handler passed to \<^verbatim>\<open>handle\<close>: a function, or a middleware chain.\<close>

datatype user_code = Function FnHandler | Express ExpressApp

text \<open>
  What one invocation leaves: the outer response, whether user code was called, and an
  error nobody caught.
\<close>

record Invocation =
  response :: ServerResponse
  userCodeCalled :: bool
  uncaughtError :: "js_error option"

fun invocation_of :: "bool \<Rightarrow> ServerResponse outcome \<Rightarrow> Invocation" where
  "invocation_of called (Ok r) = \<lparr>response = r, userCodeCalled = called, uncaughtError = None\<rparr>"
| "invocation_of called (Threw e r) =
     \<lparr>response = r, userCodeCalled = called, uncaughtError = Some e\<rparr>"

text \<open>
  \<^verbatim>\<open>
  const functionHandler = (req, resp) => {
      const inputHandler = getInputHandler(inputMode);
      if (req.method !== 'POST' || req.url !== '/call') {
          sendJSONError(resp, 400, { message: 'Invalid method',
                                     detail: fnFunctionBadRequestErrorMessage });
          return;
      }
      req.on('data', (chunk) => { inputHandler.pushData(chunk); })
         .on('end', () => {
             const headers = processHeaders(req.rawHeaders);
             const body = inputHandler.getBody();
             const ctx = new Context(process.env, body, headers);
             logFramer(ctx, fnLogframeName, fnLogframeHdr);
             if (framework === 'express') { handleExpressRequest(handler, ctx, resp); }
             else { invokeUserFunction(handler, ctx, resp); }
         })
         .on('error', (e) => {
             sendJSONError(resp, 500, { message: 'Request Error', detail: e.toString() });
         });
  };
  \<close>
  \<^verbatim>\<open>logFramer\<close> only writes to the console.
\<close>

definition functionHandler ::
    "Runtime \<Rightarrow> (string \<times> string) list \<Rightarrow> inputMode \<Rightarrow> user_code \<Rightarrow>
     IncomingMessage \<Rightarrow> ServerResponse \<Rightarrow> Invocation" where
  "functionHandler rt env mode handler req resp =
     (let inputHandler = getInputHandler mode in
      if im_method req \<noteq> ''POST'' \<or> im_url req \<noteq> ''/call'' then
        invocation_of False
          (sendJSONError resp 400 ''Invalid method'' fnFunctionBadRequestErrorMessage)
      else case im_error req of
        Some e \<Rightarrow> invocation_of False (sendJSONError resp 500 ''Request Error'' (error_toString e))
      | None \<Rightarrow>
          (let hs = processHeaders (rawHeaders req);
               b = getBody (foldl pushData inputHandler (im_chunks req));
               ctx = new_Context env b hs
           in case handler of
                Express app \<Rightarrow>
                  (let st = handleExpressRequest rt app ctx resp
                   in \<lparr>response = x_resp st, userCodeCalled = True,
                       uncaughtError = x_uncaught st\<rparr>)
              | Function fnfunction \<Rightarrow>
                  invocation_of True (invokeUserFunction rt fnfunction ctx resp)))"

section \<open>Properties of the JSON parser\<close>

text \<open>
  Every successful call of the parser consumes at least one character, and a call that
  consumes n characters succeeds with any fuel of 2 * n or more. So the fuel never
  decides the result of \<open>JSON_parse\<close>.
\<close>

lemma length_skip_ws: "length (skip_ws s) \<le> length s"
  by (simp add: skip_ws_def length_dropWhile_le)

lemma skip_ws_Cons: "skip_ws s = c # cs \<Longrightarrow> length cs < length s"
  using length_skip_ws [of s] by simp

lemma parse_string_shorter: "parse_string s = Some (str, r) \<Longrightarrow> length r < length s"
proof (induction "length s" arbitrary: s str r rule: less_induct)
  case less
  from less.prems obtain c cs where s: "s = c # cs" by (cases s) auto
  show ?case
  proof (cases "c = dquote")
    case True
    with less.prems s show ?thesis by simp
  next
    case nq: False
    show ?thesis
    proof (cases "c = backslash")
      case bs: True
      from less.prems s nq bs obtain e rest where cs: "cs = e # rest"
        by (cases cs) auto
      show ?thesis
      proof (cases "e = CHR ''u''")
        case True
        from less.prems s nq bs cs True obtain h1 h2 h3 h4 rest' where
          rest: "rest = h1 # h2 # h3 # h4 # rest'"
          by (auto split: list.splits)
        from less.prems s nq bs cs True rest obtain str' where
          "parse_string rest' = Some (str', r)"
          by (auto split: option.splits prod.splits)
        from less.hyps [OF _ this] s cs rest show ?thesis by simp
      next
        case False
        from less.prems s nq bs cs False obtain str' where
          "parse_string rest = Some (str', r)"
          by (auto split: option.splits prod.splits)
        from less.hyps [OF _ this] s cs show ?thesis by simp
      qed
    next
      case False
      from less.prems s nq False obtain str' where
        "parse_string cs = Some (str', r)"
        by (auto split: option.splits prod.splits if_splits)
      from less.hyps [OF _ this] s show ?thesis by simp
    qed
  qed
qed

lemma parse_literal_shorter:
  "parse_literal w v s = Some (x, r) \<Longrightarrow> w \<noteq> [] \<Longrightarrow> length r < length s"
  by (cases s) (auto simp add: parse_literal_def split: if_splits)

lemma scan_fraction_length: "scan_fraction s = Some (f, r) \<Longrightarrow> length r \<le> length s"
  by (cases s)
     (auto simp add: scan_fraction_def length_dropWhile_le le_SucI split: if_splits)

lemma scan_exponent_length: "scan_exponent s = Some (f, r) \<Longrightarrow> length r \<le> length s"
proof (cases s)
  case Nil
  assume "scan_exponent s = Some (f, r)"
  with Nil show ?thesis by (simp add: scan_exponent_def)
next
  case (Cons c cs)
  assume a: "scan_exponent s = Some (f, r)"
  show ?thesis
  proof (cases "c = CHR ''e'' \<or> c = CHR ''E''")
    case True
    with a Cons obtain k where "r = dropWhile is_digit (drop k cs)"
      by (auto simp add: scan_exponent_def Let_def split: if_splits)
    moreover have "length (dropWhile is_digit (drop k cs)) \<le> length (drop k cs)"
      by (rule length_dropWhile_le)
    ultimately show ?thesis using Cons by simp
  next
    case False
    with a Cons show ?thesis by (auto simp add: scan_exponent_def)
  qed
qed

lemma parse_number_shorter:
  assumes "parse_number s = Some (v, r)"
  shows "length r < length s"
proof -
  define s1 where "s1 = (if (case s of [] \<Rightarrow> False | c # _ \<Rightarrow> c = CHR ''-'') then tl s else s)"
  define ds where "ds = takeWhile is_digit s1"
  define s2 where "s2 = dropWhile is_digit s1"
  have pn: "parse_number s =
      (if ds = [] \<or> (length ds > 1 \<and> hd ds = CHR ''0'') then None
       else case scan_fraction s2 of
              None \<Rightarrow> None
            | Some (frac, s3) \<Rightarrow>
                (case scan_exponent s3 of
                   None \<Rightarrow> None
                 | Some (ex, s4) \<Rightarrow>
                     if frac = [] \<and> ex = []
                     then Some (JNumber
                       (if (case s of [] \<Rightarrow> False | c # _ \<Rightarrow> c = CHR ''-'')
                        then - int (foldl (\<lambda>acc d. 10 * acc + digit_val d) 0 ds)
                        else int (foldl (\<lambda>acc d. 10 * acc + digit_val d) 0 ds)), s4)
                     else Some (JFloat
                       ((if (case s of [] \<Rightarrow> False | c # _ \<Rightarrow> c = CHR ''-'')
                         then ''-'' else []) @ ds @ frac @ ex), s4)))"
    by (simp only: parse_number_def Let_def s1_def ds_def s2_def)
  from assms pn have ds: "ds \<noteq> []" by (auto split: if_splits)
  have "length ds + length s2 = length s1"
    unfolding ds_def s2_def by (metis length_append takeWhile_dropWhile_id)
  with ds have s2: "length s2 < length s1" by (cases ds) auto
  have s1: "length s1 \<le> length s" unfolding s1_def by (cases s) auto
  from assms pn obtain frac s3 where fr: "scan_fraction s2 = Some (frac, s3)"
    by (cases "scan_fraction s2") (auto split: if_splits)
  from assms pn fr obtain ex s4 where ex: "scan_exponent s3 = Some (ex, s4)"
    by (cases "scan_exponent s3") (auto split: if_splits)
  from assms pn fr ex have r: "r = s4"
    by (auto split: if_splits)
  from scan_fraction_length [OF fr] scan_exponent_length [OF ex] s1 s2
  show ?thesis unfolding r by linarith
qed


lemma enough_fuelI:
  assumes "length r < length s"
    and "\<And>g. 2 * (length s - length r) \<le> Suc g \<Longrightarrow> P (Suc g)"
  shows "length r < length s \<and> (\<forall>g. 2 * (length s - length r) \<le> g \<longrightarrow> P g)"
proof (intro conjI allI impI)
  show "length r < length s" by fact
next
  fix g
  assume g: "2 * (length s - length r) \<le> g"
  with assms(1) obtain g' where "g = Suc g'" by (cases g) auto
  with g assms(2) show "P g" by simp
qed

lemma parse_value_step:
  assumes E: "\<And>s vs r. parse_elements f s = Some (vs, r) \<Longrightarrow>
      length r < length s \<and>
      (\<forall>g. 2 * (length s - length r) \<le> g \<longrightarrow> parse_elements g s = Some (vs, r))"
    and M: "\<And>s ms r. parse_members f s = Some (ms, r) \<Longrightarrow>
      length r < length s \<and>
      (\<forall>g. 2 * (length s - length r) \<le> g \<longrightarrow> parse_members g s = Some (ms, r))"
    and pv: "parse_value (Suc f) s = Some (v, r)"
  shows "length r < length s \<and>
      (\<forall>g. 2 * (length s - length r) \<le> g \<longrightarrow> parse_value g s = Some (v, r))"
proof -
  from pv obtain c cs where sk: "skip_ws s = c # cs"
    by (cases "skip_ws s") auto
  have len: "length cs < length s" by (rule skip_ws_Cons [OF sk])
  consider (str) "c = dquote"
    | (arr) "c \<noteq> dquote" "c = CHR ''[''"
    | (obj) "c \<noteq> dquote" "c \<noteq> CHR ''[''" "c = CHR ''{''"
    | (other) "c \<noteq> dquote" "c \<noteq> CHR ''[''" "c \<noteq> CHR ''{''"
    by blast
  then show ?thesis
  proof cases
    case str
    with pv sk obtain st where st: "parse_string cs = Some (st, r)" "v = JString st"
      by (auto simp add: dquote_def split: option.splits)
    from parse_string_shorter [OF st(1)] len have "length r < length s" by simp
    then show ?thesis
      by (rule enough_fuelI) (simp add: sk str st)
  next
    case arr
    from pv sk arr obtain d ds where d: "skip_ws cs = d # ds"
      by (cases "skip_ws cs") (auto simp add: dquote_def)
    show ?thesis
    proof (cases "d = CHR '']''")
      case True
      with pv sk arr d have r: "r = ds" "v = JArray []" by (auto simp add: dquote_def)
      from skip_ws_Cons [OF d] len have "length r < length s" by (simp add: r)
      then show ?thesis
        by (rule enough_fuelI) (simp add: sk arr d True r dquote_def)
    next
      case False
      with pv sk arr d obtain vs where vs: "parse_elements f cs = Some (vs, r)" "v = JArray vs"
        by (auto simp add: dquote_def split: option.splits)
      from E [OF vs(1)] have r: "length r < length cs"
        and en: "\<And>g. 2 * (length cs - length r) \<le> g \<Longrightarrow> parse_elements g cs = Some (vs, r)"
        by auto
      from r len have "length r < length s" by simp
      then show ?thesis
      proof (rule enough_fuelI)
        fix g
        assume "2 * (length s - length r) \<le> Suc g"
        with len r have "2 * (length cs - length r) \<le> g" by linarith
        from en [OF this] show "parse_value (Suc g) s = Some (v, r)"
          by (simp add: sk arr d False vs dquote_def)
      qed
    qed
  next
    case obj
    from pv sk obj obtain d ds where d: "skip_ws cs = d # ds"
      by (cases "skip_ws cs") (auto simp add: dquote_def)
    show ?thesis
    proof (cases "d = CHR ''}''")
      case True
      with pv sk obj d have r: "r = ds" "v = JObject []" by (auto simp add: dquote_def)
      from skip_ws_Cons [OF d] len have "length r < length s" by (simp add: r)
      then show ?thesis
        by (rule enough_fuelI) (simp add: sk obj d True r dquote_def)
    next
      case False
      with pv sk obj d obtain ms where ms: "parse_members f cs = Some (ms, r)"
          "v = JObject (foldl (\<lambda>acc m. AList.update (fst m) (snd m) acc) [] ms)"
        by (auto simp add: dquote_def split: option.splits)
      from M [OF ms(1)] have r: "length r < length cs"
        and en: "\<And>g. 2 * (length cs - length r) \<le> g \<Longrightarrow> parse_members g cs = Some (ms, r)"
        by auto
      from r len have "length r < length s" by simp
      then show ?thesis
      proof (rule enough_fuelI)
        fix g
        assume "2 * (length s - length r) \<le> Suc g"
        with len r have "2 * (length cs - length r) \<le> g" by linarith
        from en [OF this] show "parse_value (Suc g) s = Some (v, r)"
          by (simp add: sk obj d False ms dquote_def)
      qed
    qed
  next
    case other
    have same: "parse_value (Suc g) s = Some (v, r)" for g
      using pv by (simp add: sk other)
    have "length r < length (c # cs)"
    proof (cases "c = CHR ''t''")
      case True
      with pv sk other show ?thesis
        by (auto simp add: dquote_def dest!: parse_literal_shorter)
    next
      case nt: False
      show ?thesis
      proof (cases "c = CHR ''f''")
        case True
        with pv sk other nt show ?thesis
          by (auto simp add: dquote_def dest!: parse_literal_shorter)
      next
        case nf: False
        show ?thesis
        proof (cases "c = CHR ''n''")
          case True
          with pv sk other nt nf show ?thesis
            by (auto simp add: dquote_def dest!: parse_literal_shorter)
        next
          case False
          with pv sk other nt nf show ?thesis
            by (auto simp add: dquote_def dest!: parse_number_shorter)
        qed
      qed
    qed
    with len have "length r < length s"
      using length_skip_ws [of s] sk by simp
    then show ?thesis
      by (rule enough_fuelI) (rule same)
  qed
qed


lemma parse_elements_step:
  assumes V: "\<And>s v r. parse_value f s = Some (v, r) \<Longrightarrow>
      length r < length s \<and>
      (\<forall>g. 2 * (length s - length r) \<le> g \<longrightarrow> parse_value g s = Some (v, r))"
    and E: "\<And>s vs r. parse_elements f s = Some (vs, r) \<Longrightarrow>
      length r < length s \<and>
      (\<forall>g. 2 * (length s - length r) \<le> g \<longrightarrow> parse_elements g s = Some (vs, r))"
    and pe: "parse_elements (Suc f) s = Some (vs, r)"
  shows "length r < length s \<and>
      (\<forall>g. 2 * (length s - length r) \<le> g \<longrightarrow> parse_elements g s = Some (vs, r))"
proof -
  from pe obtain v r1 where pv: "parse_value f s = Some (v, r1)"
    by (cases "parse_value f s") auto
  from V [OF pv] have r1: "length r1 < length s"
    and env: "\<And>g. 2 * (length s - length r1) \<le> g \<Longrightarrow> parse_value g s = Some (v, r1)"
    by auto
  from pe pv obtain d ds where d: "skip_ws r1 = d # ds"
    by (cases "skip_ws r1") auto
  have ds: "length ds < length r1" by (rule skip_ws_Cons [OF d])
  show ?thesis
  proof (cases "d = CHR '']''")
    case True
    with pe pv d have r: "r = ds" "vs = [v]" by auto
    from ds r1 have "length r < length s" by (simp add: r)
    then show ?thesis
    proof (rule enough_fuelI)
      fix g
      assume "2 * (length s - length r) \<le> Suc g"
      with ds r1 have "2 * (length s - length r1) \<le> g" unfolding r by linarith
      from env [OF this] show "parse_elements (Suc g) s = Some (vs, r)"
        by (simp add: d True r)
    qed
  next
    case False
    with pe pv d have comma: "d = CHR '',''"
      by (auto split: if_splits)
    with pe pv d False obtain vs' where vs': "parse_elements f ds = Some (vs', r)" "vs = v # vs'"
      by (auto split: option.splits)
    from E [OF vs'(1)] have r: "length r < length ds"
      and ene: "\<And>g. 2 * (length ds - length r) \<le> g \<Longrightarrow> parse_elements g ds = Some (vs', r)"
      by auto
    from r ds r1 have "length r < length s" by simp
    then show ?thesis
    proof (rule enough_fuelI)
      fix g
      assume g: "2 * (length s - length r) \<le> Suc g"
      with r ds r1 have "2 * (length s - length r1) \<le> g" by linarith
      note a = env [OF this]
      from g r ds r1 have "2 * (length ds - length r) \<le> g" by linarith
      note b = ene [OF this]
      from a b show "parse_elements (Suc g) s = Some (vs, r)"
        by (simp add: d False comma vs')
    qed
  qed
qed

lemma parse_members_step:
  assumes V: "\<And>s v r. parse_value f s = Some (v, r) \<Longrightarrow>
      length r < length s \<and>
      (\<forall>g. 2 * (length s - length r) \<le> g \<longrightarrow> parse_value g s = Some (v, r))"
    and M: "\<And>s ms r. parse_members f s = Some (ms, r) \<Longrightarrow>
      length r < length s \<and>
      (\<forall>g. 2 * (length s - length r) \<le> g \<longrightarrow> parse_members g s = Some (ms, r))"
    and pm: "parse_members (Suc f) s = Some (ms, r)"
  shows "length r < length s \<and>
      (\<forall>g. 2 * (length s - length r) \<le> g \<longrightarrow> parse_members g s = Some (ms, r))"
proof -
  from pm obtain q qs where q: "skip_ws s = q # qs"
    by (cases "skip_ws s") auto
  from pm q have dq: "q = dquote" by (auto split: if_splits)
  from pm q dq obtain k r0 where k: "parse_string qs = Some (k, r0)"
    by (cases "parse_string qs") auto
  from pm q dq k obtain col r1 where col: "skip_ws r0 = col # r1"
    by (cases "skip_ws r0") auto
  from pm q dq k col have colon: "col = CHR '':''" by (auto split: if_splits)
  from pm q dq k col colon obtain v r2 where pv: "parse_value f r1 = Some (v, r2)"
    by (cases "parse_value f r1") auto
  from pm q dq k col colon pv obtain d ds where d: "skip_ws r2 = d # ds"
    by (cases "skip_ws r2") auto
  from V [OF pv] have r2: "length r2 < length r1"
    and env: "\<And>g. 2 * (length r1 - length r2) \<le> g \<Longrightarrow> parse_value g r1 = Some (v, r2)"
    by auto
  have l1: "length qs < length s" by (rule skip_ws_Cons [OF q])
  have l2: "length r0 < length qs" by (rule parse_string_shorter [OF k])
  have l3: "length r1 < length r0" by (rule skip_ws_Cons [OF col])
  have l4: "length ds < length r2" by (rule skip_ws_Cons [OF d])
  show ?thesis
  proof (cases "d = CHR ''}''")
    case True
    with pm q dq k col colon pv d have r: "r = ds" "ms = [(k, v)]" by auto
    from l1 l2 l3 l4 r2 have "length r < length s" by (simp add: r)
    then show ?thesis
    proof (rule enough_fuelI)
      fix g
      assume "2 * (length s - length r) \<le> Suc g"
      with l1 l2 l3 l4 r2 have "2 * (length r1 - length r2) \<le> g" unfolding r by linarith
      from env [OF this] show "parse_members (Suc g) s = Some (ms, r)"
        by (simp add: q dq k col colon d True r)
    qed
  next
    case False
    with pm q dq k col colon pv d have comma: "d = CHR '',''"
      by (auto split: if_splits)
    with pm q dq k col colon pv d False obtain ms' where
      ms': "parse_members f ds = Some (ms', r)" "ms = (k, v) # ms'"
      by (auto split: option.splits)
    from M [OF ms'(1)] have r: "length r < length ds"
      and enm: "\<And>g. 2 * (length ds - length r) \<le> g \<Longrightarrow> parse_members g ds = Some (ms', r)"
      by auto
    from l1 l2 l3 l4 r2 r have "length r < length s" by simp
    then show ?thesis
    proof (rule enough_fuelI)
      fix g
      assume g: "2 * (length s - length r) \<le> Suc g"
      with l1 l2 l3 l4 r2 r have "2 * (length r1 - length r2) \<le> g" by linarith
      note a = env [OF this]
      from g l1 l2 l3 l4 r2 r have "2 * (length ds - length r) \<le> g" by linarith
      note b = enm [OF this]
      from a b show "parse_members (Suc g) s = Some (ms, r)"
        by (simp add: q dq k col colon d False comma ms')
    qed
  qed
qed

lemma enough_fuel:
  "(\<forall>s v r. parse_value f s = Some (v, r) \<longrightarrow>
      length r < length s \<and>
      (\<forall>g. 2 * (length s - length r) \<le> g \<longrightarrow> parse_value g s = Some (v, r))) \<and>
   (\<forall>s vs r. parse_elements f s = Some (vs, r) \<longrightarrow>
      length r < length s \<and>
      (\<forall>g. 2 * (length s - length r) \<le> g \<longrightarrow> parse_elements g s = Some (vs, r))) \<and>
   (\<forall>s ms r. parse_members f s = Some (ms, r) \<longrightarrow>
      length r < length s \<and>
      (\<forall>g. 2 * (length s - length r) \<le> g \<longrightarrow> parse_members g s = Some (ms, r)))"
proof (induction f)
  case 0
  show ?case by simp
next
  case (Suc f)
  from Suc have V: "\<And>s v r. parse_value f s = Some (v, r) \<Longrightarrow>
      length r < length s \<and>
      (\<forall>g. 2 * (length s - length r) \<le> g \<longrightarrow> parse_value g s = Some (v, r))"
    and E: "\<And>s vs r. parse_elements f s = Some (vs, r) \<Longrightarrow>
      length r < length s \<and>
      (\<forall>g. 2 * (length s - length r) \<le> g \<longrightarrow> parse_elements g s = Some (vs, r))"
    and M: "\<And>s ms r. parse_members f s = Some (ms, r) \<Longrightarrow>
      length r < length s \<and>
      (\<forall>g. 2 * (length s - length r) \<le> g \<longrightarrow> parse_members g s = Some (ms, r))"
    by blast+
  show ?case
    using parse_value_step [OF E M] parse_elements_step [OF V E] parse_members_step [OF V M]
    by blast
qed

text \<open>
  The fuel that \<open>JSON_parse\<close> gives is enough: a text that some amount of fuel parses
  as one value, followed by white space only, is parsed by \<open>JSON_parse\<close> with the same
  result.
\<close>

lemma JSON_parse_enough_fuel:
  "JSON_parse text = Some v \<longleftrightarrow> (\<exists>f r. parse_value f text = Some (v, r) \<and> skip_ws r = [])"
proof
  assume a: "JSON_parse text = Some v"
  then obtain r where "parse_value (2 * length text + 2) text = Some (v, r)"
    by (cases "parse_value (2 * length text + 2) text")
       (auto simp add: JSON_parse_def simp del: parse_value.simps split: if_splits)
  moreover from a this have "skip_ws r = []"
    by (auto simp add: JSON_parse_def simp del: parse_value.simps split: if_splits)
  ultimately show "\<exists>f r. parse_value f text = Some (v, r) \<and> skip_ws r = []"
    by blast
next
  assume "\<exists>f r. parse_value f text = Some (v, r) \<and> skip_ws r = []"
  then obtain f r where p: "parse_value f text = Some (v, r)" and r: "skip_ws r = []"
    by blast
  from enough_fuel [of f] p have
    "\<forall>g. 2 * (length text - length r) \<le> g \<longrightarrow> parse_value g text = Some (v, r)"
    by blast
  then have "parse_value (2 * length text + 2) text = Some (v, r)"
    by (simp del: parse_value.simps)
  with r show "JSON_parse text = Some v"
    by (simp add: JSON_parse_def del: parse_value.simps)
qed

section \<open>Properties of the header codec\<close>

lemma of_char_toUpperCase_char:
  "(of_char (toUpperCase_char c) :: nat) =
     (if 97 \<le> (of_char c :: nat) \<and> (of_char c :: nat) \<le> 122 then of_char c - 32 else of_char c)"
  by (auto simp add: toUpperCase_char_def Let_def)

lemma of_char_toLowerCase_char:
  "(of_char (toLowerCase_char c) :: nat) =
     (if 65 \<le> (of_char c :: nat) \<and> (of_char c :: nat) \<le> 90 then of_char c + 32 else of_char c)"
  by (auto simp add: toLowerCase_char_def Let_def)

lemma char_eq_iff_nat: "c = d \<longleftrightarrow> (of_char c :: nat) = of_char d"
  by simp

lemma toUpperCase_char_idem: "toUpperCase_char (toUpperCase_char c) = toUpperCase_char c"
  by (auto simp add: char_eq_iff_nat of_char_toUpperCase_char simp del: of_char_eq_iff)

lemma toLowerCase_char_idem: "toLowerCase_char (toLowerCase_char c) = toLowerCase_char c"
  by (auto simp add: char_eq_iff_nat of_char_toLowerCase_char simp del: of_char_eq_iff)

lemma toUpperCase_char_sep:
  "toUpperCase_char c = CHR ''-'' \<longleftrightarrow> c = CHR ''-''"
  "toUpperCase_char c = CHR ''_'' \<longleftrightarrow> c = CHR ''_''"
  by (auto simp add: char_eq_iff_nat of_char_toUpperCase_char simp del: of_char_eq_iff)

lemma toLowerCase_char_sep:
  "toLowerCase_char c = CHR ''-'' \<longleftrightarrow> c = CHR ''-''"
  "toLowerCase_char c = CHR ''_'' \<longleftrightarrow> c = CHR ''_''"
  by (auto simp add: char_eq_iff_nat of_char_toLowerCase_char simp del: of_char_eq_iff)

lemma split_not_Nil: "split sep s \<noteq> []"
  by (induction s) (auto split: list.splits)

lemma join_Cons_Cons: "join sep ((x # p) # ps) = x # join sep (p # ps)"
  by (cases ps) simp_all

lemma capitalize_Nil: "capitalize [] = []"
  by (simp add: capitalize_def)

lemma capitalize_Cons: "capitalize (c # p) = toUpperCase_char c # toLowerCase p"
  by (simp add: capitalize_def toUpperCase_def)

text \<open>
  Splitting, capitalizing and joining is the one pass \<open>canon_scan\<close>; the second
  equation is the same with the first segment already begun.
\<close>

lemma join_capitalize_scan:
  "join ''-'' (map capitalize (split CHR ''-'' (replace_underscores s))) = canon_scan True s \<and>
   join ''-'' (toLowerCase (hd (split CHR ''-'' (replace_underscores s)))
               # map capitalize (tl (split CHR ''-'' (replace_underscores s)))) = canon_scan False s"
proof (induction s)
  case Nil
  show ?case by (simp add: replace_underscores_def capitalize_Nil toLowerCase_def)
next
  case (Cons c cs)
  let ?parts = "split CHR ''-'' (replace_underscores cs)"
  obtain p ps where parts: "?parts = p # ps"
    using split_not_Nil [of "CHR ''-''" "replace_underscores cs"] by (cases ?parts) auto
  have repl: "replace_underscores (c # cs) =
      (if c = CHR ''_'' then CHR ''-'' else c) # replace_underscores cs"
    by (simp add: replace_underscores_def)
  show ?case
  proof (cases "c = CHR ''_'' \<or> c = CHR ''-''")
    case True
    then have sp: "split CHR ''-'' (replace_underscores (c # cs)) = [] # ?parts"
      by (auto simp add: repl)
    from Cons.IH True show ?thesis
      by (simp add: sp parts capitalize_Nil toLowerCase_def)
  next
    case False
    then have sp: "split CHR ''-'' (replace_underscores (c # cs)) = (c # p) # ps"
      by (simp add: repl parts)
    from Cons.IH False show ?thesis
      by (simp add: sp parts capitalize_Cons join_Cons_Cons toLowerCase_def)
  qed
qed

lemma canonHeader_scan: "canonHeader h = canon_scan True h"
  by (simp add: canonHeader_def join_capitalize_scan)

lemma canon_scan_idem: "canon_scan start (canon_scan start s) = canon_scan start s"
  by (induction s arbitrary: start)
     (simp_all add: toUpperCase_char_sep toLowerCase_char_sep
        toUpperCase_char_idem toLowerCase_char_idem)

lemma length_canon_scan: "length (canon_scan start s) = length s"
  by (induction s arbitrary: start) simp_all

lemma canon_scan_append_sep:
  "canon_scan start (p @ CHR ''-'' # k) = canon_scan start p @ CHR ''-'' # canon_scan True k"
  by (induction p arbitrary: start) simp_all

lemma canonHeader_prefix:
  "canonHeader (p @ CHR ''-'' # k) = canonHeader p @ CHR ''-'' # canonHeader k"
  by (simp add: canonHeader_scan canon_scan_append_sep)

lemma canonHeader_gateway_prefix:
  "canonHeader (''Fn-Http-H-'' @ key) = ''Fn-Http-H-'' @ canonHeader key"
proof -
  have "canonHeader (''Fn-Http-H'' @ CHR ''-'' # key) =
      canonHeader ''Fn-Http-H'' @ CHR ''-'' # canonHeader key"
    by (rule canonHeader_prefix)
  moreover have "canonHeader ''Fn-Http-H'' = ''Fn-Http-H''" by code_simp
  ultimately show ?thesis by simp
qed

lemma canonHeader_eq_spec:
  assumes "[] \<notin> set (split CHR ''-'' (replace_underscores h))"
  shows "canonHeader h = canonicalize_spec h"
proof -
  from assms have "filter (\<lambda>part. part \<noteq> []) (split CHR ''-'' (replace_underscores h))
      = split CHR ''-'' (replace_underscores h)"
    by (intro filter_True) auto
  then show ?thesis by (simp add: canonHeader_def canonicalize_spec_def)
qed

text \<open>
  A canonical name does not start with a lower-case letter or an underscore, so it is
  none of the names an object inherits (\<^verbatim>\<open>constructor\<close>, \<^verbatim>\<open>toString\<close>,
  \<^verbatim>\<open>__proto__\<close>, ...).
\<close>

lemma canonHeader_first_char:
  assumes "canonHeader h = c # cs"
  shows "\<not> (97 \<le> (of_char c :: nat) \<and> (of_char c :: nat) \<le> 122) \<and> c \<noteq> CHR ''_''"
proof (cases h)
  case Nil
  with assms show ?thesis by (simp add: canonHeader_scan)
next
  case (Cons x xs)
  show ?thesis
  proof (cases "x = CHR ''_'' \<or> x = CHR ''-''")
    case True
    with assms Cons have "c = CHR ''-''"
      by (auto simp add: canonHeader_scan)
    then show ?thesis by simp
  next
    case False
    with assms Cons have "c = toUpperCase_char x"
      by (auto simp add: canonHeader_scan)
    with False show ?thesis
      by (auto simp add: toUpperCase_char_sep of_char_toUpperCase_char)
  qed
qed

text \<open>
  The second character of a two-letter segment is lower-cased, so no name has the
  canonical form \<open>TE\<close>: that key of \<open>skipHeaders\<close> matches nothing.
\<close>

lemma canon_scan_second_lower:
  "canon_scan start s = [a, b] \<Longrightarrow> a \<noteq> CHR ''-'' \<Longrightarrow> b \<noteq> CHR ''E''"
  by (cases s; cases "tl s"; cases "tl (tl s)")
     (auto simp add: char_eq_iff_nat of_char_toLowerCase_char of_char_toUpperCase_char
      simp del: of_char_eq_iff split: if_splits)

lemma canonHeader_not_TE: "canonHeader h \<noteq> ''TE''"
  using canon_scan_second_lower [of True h "CHR ''T''" "CHR ''E''"]
  by (auto simp add: canonHeader_scan)

text \<open>
  Claim C6, as the code has it. For every header name, canonicalization replaces every
  underscore with a hyphen, splits on hyphens, upper-cases the first letter and
  lower-cases the rest of each segment and joins the segments with hyphens again, an
  empty segment staying an empty string, so that every separator of the name is kept
  and the length is unchanged; character by character it is \<open>canon_scan\<close>. It agrees
  with the reference definition whenever no segment is empty. It is total, idempotent,
  and maps \<open>content_type\<close> and \<open>Content-Type\<close> to \<open>Content-Type\<close>.
\<close>

theorem canonHeader_keeps_separators:
  "canonHeader h = canon_scan True h \<and>
   length (canonHeader h) = length h \<and>
   ([] \<notin> set (split CHR ''-'' (replace_underscores h)) \<longrightarrow>
      canonHeader h = canonicalize_spec h) \<and>
   canonHeader (canonHeader h) = canonHeader h \<and>
   canonHeader ''content_type'' = ''Content-Type'' \<and>
   canonHeader ''Content-Type'' = ''Content-Type''"
proof -
  have idem: "canonHeader (canonHeader h) = canonHeader h"
    by (simp add: canonHeader_scan canon_scan_idem)
  have ex1: "canonHeader ''content_type'' = ''Content-Type''" by code_simp
  have ex2: "canonHeader ''Content-Type'' = ''Content-Type''" by code_simp
  from idem ex1 ex2 show ?thesis
    by (simp add: canonHeader_scan [symmetric] length_canon_scan canonHeader_eq_spec
          del: split.simps)
       (simp add: canonHeader_scan length_canon_scan)
qed

theorem canonHeader_keeps_separators_witness:
  "[] \<notin> set (split CHR ''-'' (replace_underscores ''x_request_id'')) \<and>
   canonHeader ''x_request_id'' = canonicalize_spec ''x_request_id'' \<and>
   canonHeader ''x_request_id'' = ''X-Request-Id''"
proof -
  have h: "[] \<notin> set (split CHR ''-'' (replace_underscores ''x_request_id''))"
    by code_simp
  have v: "canonHeader ''x_request_id'' = ''X-Request-Id''" by code_simp
  from canonHeader_keeps_separators [of "''x_request_id''"] h v show ?thesis by blast
qed

text \<open>
  Claim C6 as stated fails where a segment is empty: the code joins the empty string
  back in, the reference definition removes it.
\<close>

theorem canonHeader_empty_segment_counterexample:
  "canonHeader ''a__b'' = ''A--B'' \<and> canonicalize_spec ''a__b'' = ''A-B'' \<and>
   canonHeader ''a__b'' \<noteq> canonicalize_spec ''a__b''"
  by code_simp

lemma toUpperCase_toLowerCase_char:
  "toUpperCase_char (toLowerCase_char c) = toUpperCase_char c"
  by (auto simp add: char_eq_iff_nat of_char_toLowerCase_char of_char_toUpperCase_char
      simp del: of_char_eq_iff)

lemma canon_scan_toLowerCase: "canon_scan start (toLowerCase s) = canon_scan start s"
  by (induction s arbitrary: start)
     (simp_all add: toLowerCase_def toLowerCase_char_sep toUpperCase_toLowerCase_char
        toLowerCase_char_idem)

lemma canonHeader_toLowerCase: "canonHeader (toLowerCase name) = canonHeader name"
  by (simp add: canonHeader_scan canon_scan_toLowerCase)

text \<open>
  What \<open>processHeaders\<close> computes, name by name: a name that is a key of
  \<open>skipHeaders\<close> is absent, and any other canonical name holds the values of the raw
  headers with that canonical name, in their order of arrival.
\<close>

lemma map_of_update:
  "map_of (AList.update k v al) k' = (if k' = k then Some v else map_of al k')"
  by (simp add: update_conv')

lemma processHeaders_loop_lookup:
  "map_of (processHeaders_loop acc raw) k =
     (if k \<in> set skipHeaders then map_of acc k
      else if map snd (filter (\<lambda>p. canonHeader (fst p) = k) raw) = [] then map_of acc k
      else Some ((case map_of acc k of None \<Rightarrow> [] | Some old \<Rightarrow> old) @
                 map snd (filter (\<lambda>p. canonHeader (fst p) = k) raw)))"
proof (induction raw arbitrary: acc)
  case Nil
  show ?case by simp
next
  case (Cons p raw)
  obtain name val where p: "p = (name, val)" by (cases p)
  show ?case
  proof (cases "canonHeader name \<in> set skipHeaders")
    case True
    with Cons.IH [of acc] p show ?thesis by auto
  next
    case False
    let ?old = "case map_of acc (canonHeader name) of None \<Rightarrow> [] | Some old \<Rightarrow> old"
    let ?acc = "AList.update (canonHeader name) (?old @ [val]) acc"
    have step: "processHeaders_loop acc ((name, val) # raw) = processHeaders_loop ?acc raw"
      using False by (simp add: Let_def split: option.splits)
    have upd: "map_of ?acc k' = (if k' = canonHeader name then Some (?old @ [val]) else map_of acc k')"
      for k'
      by (rule map_of_update)
    note IH = Cons.IH [of ?acc]
    show ?thesis
    proof (cases "k = canonHeader name")
      case True
      from IH False show ?thesis
        unfolding True
        by (simp add: p step upd del: processHeaders_loop.simps)
    next
      case neq: False
      with IH show ?thesis
        by (auto simp add: p step upd simp del: processHeaders_loop.simps)
    qed
  qed
qed

lemma processHeaders_lookup:
  "map_of (processHeaders raw) k =
     (if k \<in> set skipHeaders \<or> map snd (filter (\<lambda>p. canonHeader (fst p) = k) raw) = []
      then None
      else Some (map snd (filter (\<lambda>p. canonHeader (fst p) = k) raw)))"
  by (simp add: processHeaders_def processHeaders_loop_lookup)

text \<open>
  The five names of the deny-set other than \<open>TE\<close> are dropped in every casing.
\<close>

lemma processHeaders_drops_five:
  assumes "in_deny_set name" and "toLowerCase name \<noteq> ''te''"
  shows "map_of (processHeaders raw) (canonHeader name) = None"
proof -
  have canon: "canonHeader ''connection'' = ''Connection''"
      "canonHeader ''keep-alive'' = ''Keep-Alive''"
      "canonHeader ''transfer-encoding'' = ''Transfer-Encoding''"
      "canonHeader ''trailer'' = ''Trailer''" "canonHeader ''upgrade'' = ''Upgrade''"
    by code_simp+
  from assms have "toLowerCase name \<in>
      {''connection'', ''keep-alive'', ''transfer-encoding'', ''trailer'', ''upgrade''}"
    by (simp add: in_deny_set_def deny_set_def)
  then have "canonHeader (toLowerCase name) \<in> set skipHeaders"
    using canon by (auto simp add: skipHeaders_def)
  then have "canonHeader name \<in> set skipHeaders"
    by (simp add: canonHeader_toLowerCase)
  then show ?thesis by (simp add: processHeaders_lookup)
qed

text \<open>
  Claim C1 at the failing input. The header \<open>TE\<close> is in the deny-set, yet in each of
  its casings it is kept by \<open>processHeaders\<close>, under its canonical name \<open>Te\<close>.
\<close>

theorem processHeaders_keeps_TE:
  "in_deny_set ''TE'' \<and> in_deny_set ''te'' \<and> in_deny_set ''Te'' \<and>
   processHeaders [(''TE'', ''trailers'')] = [(''Te'', [''trailers''])] \<and>
   processHeaders [(''te'', ''trailers'')] = [(''Te'', [''trailers''])] \<and>
   processHeaders [(''Te'', ''trailers'')] = [(''Te'', [''trailers''])]"
  by code_simp

section \<open>Properties of the input accumulator\<close>

lemma foldl_pushData_JSON:
  "foldl pushData (JSONInputHandler str) chunks =
     JSONInputHandler (str @ concat (map chunk_toString chunks))"
  by (induction chunks arbitrary: str) simp_all

text \<open>
  Claim C7. For every sequence of chunks, the JSON accumulator holds their texts
  concatenated, and its body is the parsed value when the text parses and the text
  itself, as a string, when it does not; no error is raised, the body is a value in
  both cases. The text \<open>{"a":1}\<close>, in one chunk or in two, gives the object with the
  member \<open>a\<close> = 1, and \<open>not json\<close> gives the string \<open>not json\<close>.
\<close>

theorem JSONInputHandler_getBody_fallback:
  \<open>getBody (foldl pushData (getInputHandler ModeJSON) chunks) =
     (case JSON_parse (concat (map chunk_toString chunks)) of
        Some v \<Rightarrow> v
      | None \<Rightarrow> JString (concat (map chunk_toString chunks))) \<and>
   getBody (foldl pushData (getInputHandler ModeJSON) [BufferChunk ''{"a":1}'']) =
     JObject [(''a'', JNumber 1)] \<and>
   getBody (foldl pushData (getInputHandler ModeJSON) [BufferChunk ''{"a"'', BufferChunk '':1}'']) =
     JObject [(''a'', JNumber 1)] \<and>
   getBody (foldl pushData (getInputHandler ModeJSON) [BufferChunk ''not json'']) =
     JString ''not json''\<close>
proof -
  have general: "getBody (foldl pushData (getInputHandler ModeJSON) chunks) =
     (case JSON_parse (concat (map chunk_toString chunks)) of
        Some v \<Rightarrow> v
      | None \<Rightarrow> JString (concat (map chunk_toString chunks)))"
    by (simp add: foldl_pushData_JSON)
  have ex1: \<open>getBody (foldl pushData (getInputHandler ModeJSON) [BufferChunk ''{"a":1}'']) =
     JObject [(''a'', JNumber 1)]\<close>
    by code_simp
  have ex2: \<open>getBody (foldl pushData (getInputHandler ModeJSON)
       [BufferChunk ''{"a"'', BufferChunk '':1}'']) = JObject [(''a'', JNumber 1)]\<close>
    by code_simp
  have ex3: "getBody (foldl pushData (getInputHandler ModeJSON) [BufferChunk ''not json'']) =
     JString ''not json''"
    by code_simp
  from general ex1 ex2 ex3 show ?thesis by blast
qed

section \<open>Properties of the gateway view\<close>

lemma toLowerCase_names:
  "toLowerCase ''Content-length'' = ''content-length''"
  "toLowerCase ''Fn-Fdk-Version'' = ''fn-fdk-version''"
  "toLowerCase ''Fn-Fdk-Runtime'' = ''fn-fdk-runtime''"
  "toLowerCase ''Content-Type'' = ''content-type''"
  "toLowerCase ''Fn-Http-H-X-Foo'' = ''fn-http-h-x-foo''"
  "toLowerCase ''Fn-Http-H-Content-Type'' = ''fn-http-h-content-type''"
  by code_simp+

lemma canonHeader_names:
  "canonHeader ''Content-Type'' = ''Content-Type''"
  "canonHeader ''X-Foo'' = ''X-Foo''"
  by code_simp+

text \<open>
  The names and values the adapter itself gives to \<^verbatim>\<open>setHeader\<close> and \<^verbatim>\<open>writeHead\<close> are
  valid, and so are those of the examples.
\<close>

lemma valid_names:
  "valid_header_name ''Content-Type''"
  "valid_header_name ''Fn-Fdk-Version''"
  "valid_header_name ''Fn-Fdk-Runtime''"
  "valid_header_name ''Fn-Http-H-X-Foo''"
  "valid_header_name ''Fn-Http-H-Content-Type''"
  "valid_header_value [''application/json'']"
  "valid_header_value [''bar'']"
  "valid_header_text ''OK''"
  "valid_header_text ''Internal Error''"
  by code_simp+

lemma valid_example_Runtime: "valid_Runtime example_Runtime"
  by code_simp

lemma sentHeaders_writeBody:
  "sentHeaders (state_of (writeBody result isJSON resp)) = sentHeaders resp"
proof -
  have w: "sentHeaders (fold write_data chunks r) = sentHeaders r" for chunks r
    by (induction chunks arbitrary: r) (simp_all add: write_data_def)
  show ?thesis
  proof (cases result)
    case (Plain v)
    then show ?thesis
      by (simp add: end_response_def write_data_def split: option.splits)
  next
    case (RawResult d)
    then show ?thesis
      by (simp add: end_response_def write_data_def split: option.splits)
  next
    case (StreamResult chunks e)
    then show ?thesis
      by (cases e) (simp_all add: end_response_def w)
  qed
qed

text \<open>
  The headers the transport response carries when \<open>sendResult\<close> starts from a fresh
  response and the context holds one response header that the transport accepts. The
  response is read where \<open>sendResult\<close> leaves it, also when a later call throws.
\<close>

lemma sendResult_one_header:
  assumes "responseHeaders ctx = [(key, vals)]"
    and "toLowerCase key \<notin> {''content-length'', ''fn-fdk-version'', ''fn-fdk-runtime''}"
    and "valid_header_name key" and "valid_header_value vals"
  shows "getSentHeader (state_of (snd (sendResult rt ctx new_ServerResponse result))) key =
           Some (key, vals) \<and>
         (toLowerCase name \<notin> {toLowerCase key, ''fn-fdk-version'', ''fn-fdk-runtime''} \<longrightarrow>
          getSentHeader (state_of (snd (sendResult rt ctx new_ServerResponse result))) name = None)"
  using assms
  by (simp add: sendResult_def Let_def new_ServerResponse_def setHeader_def removeHeader_def
        writeHead_def getSentHeader_def sentHeaders_writeBody toLowerCase_names map_of_update
        delete_conv' valid_names del: writeBody.simps)

text \<open>
  Claim C9. For every context, header name and values: when the canonical form of the
  name is not \<open>Content-Type\<close>, \<open>setResponseHeader\<close> on the gateway view stores the
  values as the response header with the gateway prefix before the canonical name and
  leaves the content-type slot as it is; when it is \<open>Content-Type\<close>, it sets the slot
  to the first value and leaves the response headers as they are. So one call changes
  one of the two and never the other, and it never brings a prefixed
  \<open>Fn-Http-H-Content-Type\<close> header into being. On a new context,
  \<open>setResponseHeader("X-Foo", "bar")\<close> gives the response header
  \<open>Fn-Http-H-X-Foo: bar\<close>, which \<open>sendResult\<close> puts on the transport response, and
  \<open>setResponseHeader("Content-Type", v)\<close> sets the slot and puts no
  \<open>Fn-Http-H-Content-Type\<close> header on the transport response.
\<close>

theorem HTTPGatewayContext_setResponseHeader_exclusive:
  "(canonHeader key \<noteq> ''Content-Type'' \<longrightarrow>
      map_of (responseHeaders (HTTPGatewayContext_setResponseHeader ctx key vals))
        (''Fn-Http-H-'' @ canonHeader key) = Some vals \<and>
      responseContentType (HTTPGatewayContext_setResponseHeader ctx key vals) =
        responseContentType ctx) \<and>
   (canonHeader key = ''Content-Type'' \<longrightarrow>
      responseHeaders (HTTPGatewayContext_setResponseHeader ctx key vals) = responseHeaders ctx \<and>
      responseContentType (HTTPGatewayContext_setResponseHeader ctx key vals) =
        (case vals of [] \<Rightarrow> None | v # _ \<Rightarrow> Some v)) \<and>
   (map_of (responseHeaders ctx) ''Fn-Http-H-Content-Type'' = None \<longrightarrow>
      map_of (responseHeaders (HTTPGatewayContext_setResponseHeader ctx key vals))
        ''Fn-Http-H-Content-Type'' = None) \<and>
   responseHeaders (HTTPGatewayContext_setResponseHeader (new_Context env b hs) ''X-Foo'' [''bar'']) =
     [(''Fn-Http-H-X-Foo'', [''bar''])] \<and>
   getSentHeader (state_of (snd (sendResult rt
       (HTTPGatewayContext_setResponseHeader (new_Context env b hs) ''X-Foo'' [''bar''])
       new_ServerResponse result))) ''Fn-Http-H-X-Foo'' = Some (''Fn-Http-H-X-Foo'', [''bar'']) \<and>
   HTTPGatewayContext_setResponseHeader (new_Context env b hs) ''Content-Type'' [v] =
     (new_Context env b hs)\<lparr>responseContentType := Some v\<rparr> \<and>
   getSentHeader (state_of (snd (sendResult rt
       (HTTPGatewayContext_setResponseHeader (new_Context env b hs) ''Content-Type'' [v])
       new_ServerResponse result))) ''Fn-Http-H-Content-Type'' = None"
proof -
  have a: "canonHeader key \<noteq> ''Content-Type'' \<longrightarrow>
      map_of (responseHeaders (HTTPGatewayContext_setResponseHeader ctx key vals))
        (''Fn-Http-H-'' @ canonHeader key) = Some vals \<and>
      responseContentType (HTTPGatewayContext_setResponseHeader ctx key vals) =
        responseContentType ctx"
    by (simp add: HTTPGatewayContext_setResponseHeader_def Context_setResponseHeader_def
          canonHeader_gateway_prefix map_of_update del: append.simps)
  have b: "canonHeader key = ''Content-Type'' \<longrightarrow>
      responseHeaders (HTTPGatewayContext_setResponseHeader ctx key vals) = responseHeaders ctx \<and>
      responseContentType (HTTPGatewayContext_setResponseHeader ctx key vals) =
        (case vals of [] \<Rightarrow> None | v # _ \<Rightarrow> Some v)"
    by (simp add: HTTPGatewayContext_setResponseHeader_def)
  have c: "map_of (responseHeaders ctx) ''Fn-Http-H-Content-Type'' = None \<longrightarrow>
      map_of (responseHeaders (HTTPGatewayContext_setResponseHeader ctx key vals))
        ''Fn-Http-H-Content-Type'' = None"
  proof (cases "canonHeader key = ''Content-Type''")
    case True
    then show ?thesis by (simp add: HTTPGatewayContext_setResponseHeader_def)
  next
    case False
    then have "''Fn-Http-H-'' @ canonHeader key \<noteq> ''Fn-Http-H-'' @ ''Content-Type''"
      by blast
    then have "canonHeader (''Fn-Http-H-'' @ key) \<noteq> ''Fn-Http-H-Content-Type''"
      by (simp add: canonHeader_gateway_prefix del: append.simps) simp
    with False show ?thesis
      by (simp add: HTTPGatewayContext_setResponseHeader_def Context_setResponseHeader_def
            map_of_update del: append.simps)
  qed
  have d: "responseHeaders (HTTPGatewayContext_setResponseHeader (new_Context env b hs) ''X-Foo'' [''bar'']) =
     [(''Fn-Http-H-X-Foo'', [''bar''])]"
    using canonHeader_gateway_prefix [of "''X-Foo''"]
    by (simp add: HTTPGatewayContext_setResponseHeader_def Context_setResponseHeader_def
          new_Context_def canonHeader_names)
  have e: "getSentHeader (state_of (snd (sendResult rt
       (HTTPGatewayContext_setResponseHeader (new_Context env b hs) ''X-Foo'' [''bar''])
       new_ServerResponse result))) ''Fn-Http-H-X-Foo'' = Some (''Fn-Http-H-X-Foo'', [''bar''])"
    using sendResult_one_header [OF d, of rt result]
    by (simp add: toLowerCase_names valid_names)
  have f: "HTTPGatewayContext_setResponseHeader (new_Context env b hs) ''Content-Type'' [v] =
     (new_Context env b hs)\<lparr>responseContentType := Some v\<rparr>"
    by (simp add: HTTPGatewayContext_setResponseHeader_def canonHeader_names)
  have g: "getSentHeader (state_of (snd (sendResult rt
       (HTTPGatewayContext_setResponseHeader (new_Context env b hs) ''Content-Type'' [v])
       new_ServerResponse result))) ''Fn-Http-H-Content-Type'' = None"
    unfolding f
    by (simp add: sendResult_def Let_def new_Context_def new_ServerResponse_def setHeader_def
          removeHeader_def writeHead_def getSentHeader_def sentHeaders_writeBody
          toLowerCase_names map_of_update delete_conv' valid_names del: writeBody.simps)
  from a b c d e f g show ?thesis by blast
qed

theorem HTTPGatewayContext_setResponseHeader_exclusive_witness:
  "canonHeader ''x_foo'' \<noteq> ''Content-Type'' \<and>
   map_of (responseHeaders (HTTPGatewayContext_setResponseHeader (new_Context [] JNull [])
      ''x_foo'' [''bar''])) (''Fn-Http-H-'' @ canonHeader ''x_foo'') = Some [''bar''] \<and>
   canonHeader ''content_type'' = ''Content-Type'' \<and>
   responseContentType (HTTPGatewayContext_setResponseHeader (new_Context [] JNull [])
      ''content_type'' [''text/plain'']) = Some ''text/plain'' \<and>
   map_of (responseHeaders (new_Context [] JNull [])) ''Fn-Http-H-Content-Type'' = None \<and>
   map_of (responseHeaders (HTTPGatewayContext_setResponseHeader (new_Context [] JNull [])
      ''content_type'' [''text/plain''])) ''Fn-Http-H-Content-Type'' = None"
proof -
  have h1: "canonHeader ''x_foo'' \<noteq> ''Content-Type''" by code_simp
  have h2: "canonHeader ''content_type'' = ''Content-Type''" by code_simp
  have h3: "map_of (responseHeaders (new_Context [] JNull [])) ''Fn-Http-H-Content-Type'' = None"
    by (simp add: new_Context_def)
  from h1 h2 h3
    HTTPGatewayContext_setResponseHeader_exclusive
      [of "''x_foo''" "new_Context [] JNull []" "[''bar'']"]
    HTTPGatewayContext_setResponseHeader_exclusive
      [of "''content_type''" "new_Context [] JNull []" "[''text/plain'']"]
  show ?thesis by simp
qed

text \<open>
  Claim C10. For every context and value \<open>v\<close>, \<open>addResponseHeader("Content-Type", v)\<close>
  on the gateway view leaves the content-type slot as it is and appends \<open>v\<close> to the
  response header \<open>Fn-Http-H-Content-Type\<close>, creating it when it is not there; on a new
  context \<open>sendResult\<close> then puts that header on the transport response when \<open>v\<close> is
  a value the transport accepts, and when it is not, \<open>setHeader\<close> throws and the
  transport response carries no such header. The set path never creates this header:
  when it is absent before a call of \<open>setResponseHeader\<close>, whatever the name and the
  values, it is absent after it.
\<close>

theorem HTTPGatewayContext_addResponseHeader_content_type:
  "responseContentType (HTTPGatewayContext_addResponseHeader ctx ''Content-Type'' [v]) =
     responseContentType ctx \<and>
   map_of (responseHeaders (HTTPGatewayContext_addResponseHeader ctx ''Content-Type'' [v]))
     ''Fn-Http-H-Content-Type'' =
     Some ((case map_of (responseHeaders ctx) ''Fn-Http-H-Content-Type'' of
              None \<Rightarrow> [] | Some old \<Rightarrow> old) @ [v]) \<and>
   getSentHeader (state_of (snd (sendResult rt
       (HTTPGatewayContext_addResponseHeader (new_Context env b hs) ''Content-Type'' [v])
       new_ServerResponse result))) ''Fn-Http-H-Content-Type'' =
     (if valid_header_value [v] then Some (''Fn-Http-H-Content-Type'', [v]) else None) \<and>
   (map_of (responseHeaders ctx) ''Fn-Http-H-Content-Type'' = None \<longrightarrow>
      map_of (responseHeaders (HTTPGatewayContext_setResponseHeader ctx key vals))
        ''Fn-Http-H-Content-Type'' = None)"
proof -
  have canon: "canonHeader (''Fn-Http-H-'' @ ''Content-Type'') = ''Fn-Http-H-Content-Type''"
    by (simp add: canonHeader_gateway_prefix canonHeader_names del: append.simps)
  have a: "responseContentType (HTTPGatewayContext_addResponseHeader ctx ''Content-Type'' [v]) =
     responseContentType ctx"
    by (simp add: HTTPGatewayContext_addResponseHeader_def Context_addResponseHeader_def Let_def)
  have b: "map_of (responseHeaders (HTTPGatewayContext_addResponseHeader ctx ''Content-Type'' [v]))
     ''Fn-Http-H-Content-Type'' =
     Some ((case map_of (responseHeaders ctx) ''Fn-Http-H-Content-Type'' of
              None \<Rightarrow> [] | Some old \<Rightarrow> old) @ [v])"
    using canon
    by (simp add: HTTPGatewayContext_addResponseHeader_def Context_addResponseHeader_def Let_def
          map_of_update del: append.simps)
  have hd: "responseHeaders (HTTPGatewayContext_addResponseHeader (new_Context env b hs)
       ''Content-Type'' [v]) = [(''Fn-Http-H-Content-Type'', [v])]"
    using canon
    by (simp add: HTTPGatewayContext_addResponseHeader_def Context_addResponseHeader_def Let_def
          new_Context_def del: append.simps)
  have c: "getSentHeader (state_of (snd (sendResult rt
       (HTTPGatewayContext_addResponseHeader (new_Context env b hs) ''Content-Type'' [v])
       new_ServerResponse result))) ''Fn-Http-H-Content-Type'' =
     (if valid_header_value [v] then Some (''Fn-Http-H-Content-Type'', [v]) else None)"
  proof (cases "valid_header_value [v]")
    case True
    with sendResult_one_header [OF hd, of rt result] show ?thesis
      by (simp add: toLowerCase_names valid_names)
  next
    case False
    then show ?thesis
      by (simp add: sendResult_def Let_def hd setHeader_def new_ServerResponse_def
            getSentHeader_def valid_names)
  qed
  have d: "map_of (responseHeaders ctx) ''Fn-Http-H-Content-Type'' = None \<longrightarrow>
      map_of (responseHeaders (HTTPGatewayContext_setResponseHeader ctx key vals))
        ''Fn-Http-H-Content-Type'' = None"
  proof (cases "canonHeader key = ''Content-Type''")
    case True
    then show ?thesis by (simp add: HTTPGatewayContext_setResponseHeader_def)
  next
    case False
    then have "''Fn-Http-H-'' @ canonHeader key \<noteq> ''Fn-Http-H-'' @ ''Content-Type''"
      by blast
    then have "canonHeader (''Fn-Http-H-'' @ key) \<noteq> ''Fn-Http-H-Content-Type''"
      by (simp add: canonHeader_gateway_prefix del: append.simps) simp
    with False show ?thesis
      by (simp add: HTTPGatewayContext_setResponseHeader_def Context_setResponseHeader_def
            map_of_update del: append.simps)
  qed
  from a b c d show ?thesis by blast
qed

theorem HTTPGatewayContext_addResponseHeader_content_type_witness:
  "map_of (responseHeaders (new_Context [] JNull [])) ''Fn-Http-H-Content-Type'' = None \<and>
   map_of (responseHeaders (HTTPGatewayContext_setResponseHeader (new_Context [] JNull [])
      ''Content-Type'' [''text/html''])) ''Fn-Http-H-Content-Type'' = None \<and>
   map_of (responseHeaders (HTTPGatewayContext_addResponseHeader (new_Context [] JNull [])
      ''Content-Type'' [''text/html''])) ''Fn-Http-H-Content-Type'' = Some [''text/html''] \<and>
   valid_header_value [''text/html''] \<and>
   getSentHeader (state_of (snd (sendResult example_Runtime
       (HTTPGatewayContext_addResponseHeader (new_Context [] JNull []) ''Content-Type''
          [''text/html''])
       new_ServerResponse (Plain JNull)))) ''Fn-Http-H-Content-Type'' =
     Some (''Fn-Http-H-Content-Type'', [''text/html'']) \<and>
   \<not> valid_header_value [[CHR ''a'', CHR 0x0D, CHR 0x0A, CHR ''b'']] \<and>
   getSentHeader (state_of (snd (sendResult example_Runtime
       (HTTPGatewayContext_addResponseHeader (new_Context [] JNull []) ''Content-Type''
          [[CHR ''a'', CHR 0x0D, CHR 0x0A, CHR ''b'']])
       new_ServerResponse (Plain JNull)))) ''Fn-Http-H-Content-Type'' = None"
proof -
  have h: "map_of (responseHeaders (new_Context [] JNull [])) ''Fn-Http-H-Content-Type'' = None"
    by (simp add: new_Context_def)
  have v: "valid_header_value [''text/html'']"
    by code_simp
  have w: "\<not> valid_header_value [[CHR ''a'', CHR 0x0D, CHR 0x0A, CHR ''b'']]"
    by code_simp
  from h v w
    HTTPGatewayContext_addResponseHeader_content_type
      [of "new_Context [] JNull []" "''text/html''" example_Runtime "[]" JNull "[]" "Plain JNull"
          "''Content-Type''" "[''text/html'']"]
    HTTPGatewayContext_addResponseHeader_content_type
      [of "new_Context [] JNull []" "[CHR ''a'', CHR 0x0D, CHR 0x0A, CHR ''b'']" example_Runtime
          "[]" JNull "[]" "Plain JNull" "''Content-Type''" "[''text/html'']"]
  show ?thesis by simp
qed

section \<open>Properties of the result encoder\<close>

lemma stringify_examples:
  \<open>JSON_stringify (JObject [(''x'', JNumber 1)]) = ''{"x":1}''\<close>
  \<open>JSON_stringify (JString ''plain'') = ''"plain"''\<close>
  \<open>JSON_stringify (JObject [(''message'', JString ''Invalid method''),
      (''detail'', JString ''Bad request'')]) =
     ''{"message":"Invalid method","detail":"Bad request"}''\<close>
  by code_simp+

text \<open>
  Copying response headers to a response with no status line leaves the status line,
  the body and the count of ends as they are, whether a header is refused or not; and
  no header is refused when all are valid.
\<close>

lemma setHeaders_loop_state:
  "statusLine resp = None \<Longrightarrow>
   statusLine (state_of (setHeaders_loop hs resp)) = None \<and>
   written (state_of (setHeaders_loop hs resp)) = written resp \<and>
   endCalls (state_of (setHeaders_loop hs resp)) = endCalls resp"
proof (induction hs arbitrary: resp)
  case Nil
  then show ?case by simp
next
  case (Cons h hs)
  obtain key vals where h: "h = (key, vals)" by (cases h)
  let ?r = "resp\<lparr>sentHeaders := AList.update (toLowerCase key) (key, vals) (sentHeaders resp)\<rparr>"
  have "statusLine ?r = None" using Cons.prems by simp
  from Cons.IH [OF this] Cons.prems h show ?case by (simp add: setHeader_def)
qed







text \<open>
  A plain result on a fresh response: either \<open>sendResult\<close> ends the response once, or
  it throws before the status line, with the response not ended.
\<close>

lemma sendResult_plain_outcome:
  "(\<exists>r. snd (sendResult rt ctx new_ServerResponse (Plain v)) = Ok r \<and> endCalls r = 1) \<or>
   (\<exists>e r. snd (sendResult rt ctx new_ServerResponse (Plain v)) = Threw e r \<and>
      statusLine r = None \<and> endCalls r = 0)"
proof -
  let ?ctx = "if \<not> truthy (responseContentType ctx) \<and> result_not_null (Plain v)
              then ctx\<lparr>responseContentType := Some ''application/json''\<rparr> else ctx"
  let ?l = "setHeaders_loop (responseHeaders ?ctx) new_ServerResponse"
  have st: "statusLine (state_of ?l) = None" "endCalls (state_of ?l) = 0"
    using setHeaders_loop_state [of new_ServerResponse "responseHeaders ?ctx"]
    by (simp_all add: new_ServerResponse_def)
  show ?thesis
  proof (cases ?l)
    case (Ok r1)
    with st have r1: "statusLine r1 = None" "endCalls r1 = 0" by simp_all
    from Ok r1 show ?thesis
      by (simp add: sendResult_def Let_def removeHeader_def setHeader_def writeHead_def
            valid_names end_response_def write_data_def split: option.splits
            del: JSON_stringify.simps)
  next
    case (Threw e r)
    with st have "statusLine r = None" "endCalls r = 0" by simp_all
    with Threw show ?thesis
      by (simp add: sendResult_def Let_def del: writeBody.simps)
  qed
qed




text \<open>
  With a function as handler, a plain result and an error both end the response
  exactly once: an error thrown by \<open>sendResult\<close> before the status line is answered
  like one thrown by the function.
\<close>

lemma handleFunctionError_ends_once:
  "statusLine r = None \<Longrightarrow> endCalls r = 0 \<Longrightarrow>
   \<exists>r'. handleFunctionError e r = Ok r' \<and> statusLine r' = Some (502, ''Internal Error'') \<and>
     endCalls r' = 1"
  by (simp add: handleFunctionError_def sendJSONError_def setHeader_def writeHead_def
        end_response_def write_data_def valid_names del: JSON_stringify.simps)

lemma invokeUserFunction_ends_once:
  assumes "fnfunction (body ctx) ctx = Returns (Plain v) ctx' \<or>
           fnfunction (body ctx) ctx = Throws e"
  shows "\<exists>r. invokeUserFunction rt fnfunction ctx new_ServerResponse = Ok r \<and> endCalls r = 1"
  using assms
proof
  assume ret: "fnfunction (body ctx) ctx = Returns (Plain v) ctx'"
  from sendResult_plain_outcome [of rt ctx' v] show ?thesis
  proof
    assume "\<exists>r. snd (sendResult rt ctx' new_ServerResponse (Plain v)) = Ok r \<and> endCalls r = 1"
    with ret show ?thesis by (auto simp add: invokeUserFunction_def)
  next
    assume "\<exists>e r. snd (sendResult rt ctx' new_ServerResponse (Plain v)) = Threw e r \<and>
      statusLine r = None \<and> endCalls r = 0"
    then obtain e' r where t: "snd (sendResult rt ctx' new_ServerResponse (Plain v)) = Threw e' r"
        "statusLine r = None" "endCalls r = 0"
      by blast
    from handleFunctionError_ends_once [OF t(2,3), of e'] t(1) ret show ?thesis
      by (auto simp add: invokeUserFunction_def)
  qed
next
  assume thr: "fnfunction (body ctx) ctx = Throws e"
  have "statusLine new_ServerResponse = None" "endCalls new_ServerResponse = 0"
    by (simp_all add: new_ServerResponse_def)
  from handleFunctionError_ends_once [OF this, of e] thr show ?thesis
    by (auto simp add: invokeUserFunction_def)
qed

text \<open>
  A response header with a space in its name, set by the function, turns the answer
  into the error 502.
\<close>

lemma invokeUserFunction_refused_header:
  "statusLine (state_of (invokeUserFunction example_Runtime
      (\<lambda>b c. Returns (Plain (JString ''x'')) (c\<lparr>responseHeaders := [(''A b'', [''v''])]\<rparr>))
      (new_Context [] JNull []) new_ServerResponse)) = Some (502, ''Internal Error'')"
  by code_simp

section \<open>Properties of the dispatch\<close>

text \<open>
  Claim C8. For every incoming request whose method is not \<open>POST\<close> or whose path is
  not \<open>/call\<close>, whatever the handler, the input mode and the environment: the response
  is the terminal JSON error with status 400, the header
  \<open>Content-Type: application/json\<close> and the body
  \<open>{"message":"Invalid method","detail":"Bad request"}\<close>, ended once, and user code
  is not called; the result does not depend on the handler.
\<close>

theorem functionHandler_invalid_request:
  \<open>im_method req \<noteq> ''POST'' \<or> pathname (im_url req) \<noteq> ''/call'' \<Longrightarrow>
   functionHandler rt env mode handler req new_ServerResponse =
     \<lparr>response =
        \<lparr>sentHeaders = [(''content-type'', ''Content-Type'', [''application/json''])],
         statusLine = Some (400, ''Internal Error''),
         written = [''{"message":"Invalid method","detail":"Bad request"}''],
         endCalls = 1\<rparr>,
      userCodeCalled = False, uncaughtError = None\<rparr>\<close>
proof -
  assume h: "im_method req \<noteq> ''POST'' \<or> pathname (im_url req) \<noteq> ''/call''"
  have "pathname ''/call'' = ''/call''" by (simp add: pathname_def)
  with h have bad: "im_method req \<noteq> ''POST'' \<or> im_url req \<noteq> ''/call''" by auto
  then show ?thesis
    by (simp add: functionHandler_def sendJSONError_def fnFunctionBadRequestErrorMessage_def
          stringify_examples setHeader_def writeHead_def end_response_def write_data_def
          new_ServerResponse_def toLowerCase_names valid_names del: JSON_stringify.simps)
qed

theorem functionHandler_invalid_request_witness:
  \<open>im_method \<lparr>im_method = ''GET'', im_url = ''/call'', rawHeaders = [],
      im_chunks = [], im_error = None\<rparr> \<noteq> ''POST'' \<and>
   statusLine (response (functionHandler example_Runtime [] ModeJSON
      (Function (\<lambda>b ctx. Returns (Plain (JString ''never'')) ctx))
      \<lparr>im_method = ''GET'', im_url = ''/call'', rawHeaders = [], im_chunks = [],
       im_error = None\<rparr> new_ServerResponse)) = Some (400, ''Internal Error'') \<and>
   sentBody (response (functionHandler example_Runtime [] ModeJSON
      (Function (\<lambda>b ctx. Returns (Plain (JString ''never'')) ctx))
      \<lparr>im_method = ''GET'', im_url = ''/call'', rawHeaders = [], im_chunks = [],
       im_error = None\<rparr> new_ServerResponse)) =
     ''{"message":"Invalid method","detail":"Bad request"}''\<close>
proof -
  have h: "im_method \<lparr>im_method = ''GET'', im_url = ''/call'', rawHeaders = [],
      im_chunks = [], im_error = None\<rparr> \<noteq> ''POST''"
    by simp
  then have "im_method \<lparr>im_method = ''GET'', im_url = ''/call'', rawHeaders = [],
      im_chunks = [], im_error = None\<rparr> \<noteq> ''POST'' \<or>
    pathname (im_url \<lparr>im_method = ''GET'', im_url = ''/call'', rawHeaders = [],
      im_chunks = [], im_error = None\<rparr>) \<noteq> ''/call''"
    by (rule disjI1)
  from h functionHandler_invalid_request [OF this, of example_Runtime "[]" ModeJSON
      "Function (\<lambda>b ctx. Returns (Plain (JString ''never'')) ctx)"]
  show ?thesis by (simp add: sentBody_def)
qed

section \<open>Properties of the middleware shim\<close>

text \<open>
  The body of a settled exchange is a buffer, a buffer is an object, and so every
  settled exchange goes to the JSON path, whatever content type it declares.
\<close>

lemma sendExpressResponse_buffer_isJson:
  "sendExpressResponse_isJson \<lparr>res_status = st, res_headers = hs, res_body = JBuffer bytes\<rparr>"
  by (simp add: sendExpressResponse_isJson_def)

text \<open>
  Claim C3 at the failing input. The settled exchange declares the content type
  \<open>text/plain\<close> and its body is the buffer \<open>hello\<close>; the content type does not contain
  \<open>json\<close> and the body is a buffer, so the claim sends the five bytes with that
  content type. The code reads the content type as \<open>t\<close>, the first character of the
  header, takes the JSON path because a buffer is an object, and throws when it parses
  \<open>hello\<close>; the transport response is left untouched.
\<close>

theorem sendExpressResponse_text_takes_JSON_path:
  "sendExpressResponse_contentType
     \<lparr>res_status = 200, res_headers = [(''content-type'', ''text/plain'')],
      res_body = JBuffer ''hello''\<rparr> = ''t'' \<and>
   sendExpressResponse_isJson
     \<lparr>res_status = 200, res_headers = [(''content-type'', ''text/plain'')],
      res_body = JBuffer ''hello''\<rparr> \<and>
   snd (sendExpressResponse example_Runtime
     (Settled \<lparr>res_status = 200, res_headers = [(''content-type'', ''text/plain'')],
      res_body = JBuffer ''hello''\<rparr>) (new_Context [] (JBuffer []) []) new_ServerResponse) =
     Threw SyntaxError_JSON new_ServerResponse"
  by code_simp

text \<open>
  Claim C4 at the failing inputs. A chain that declares JSON and ends the response with
  \<open>{"ok":true}\<close> is answered with status 200 and that body. When the same chain, after
  its \<open>end\<close> and before it returns, passes an error to \<open>next\<close> or throws it, the answer is
  the 500 error body instead: \<open>responseHandled\<close> is only set by the reaction to the
  promise, which runs after the turn, so \<open>handleError\<close> still finds it unset. And a
  chain that finishes without ending the response is not answered with a 404 body: the
  404 handler ends the synthetic response and then passes that object itself, which has
  no \<open>headers\<close>, to \<open>sendExpressResponse\<close>. When the chain finishes before the call
  returns, the error is caught and answered with status 500; when it finishes in a
  later turn, nobody catches it and nothing is sent.
\<close>

theorem handleExpressRequest_settlement_failing_inputs:
  \<open>statusLine (x_resp (handleExpressRequest example_Runtime
      (\<lambda>req. [[SetHeader ''Content-Type'' ''application/json'', End (Some ''{"ok":true}'')]])
      (new_Context [] (JBuffer []) []) new_ServerResponse)) = Some (200, ''OK'') \<and>
   sentBody (x_resp (handleExpressRequest example_Runtime
      (\<lambda>req. [[SetHeader ''Content-Type'' ''application/json'', End (Some ''{"ok":true}'')]])
      (new_Context [] (JBuffer []) []) new_ServerResponse)) = ''{"ok":true}'' \<and>
   statusLine (x_resp (handleExpressRequest example_Runtime
      (\<lambda>req. [[SetHeader ''Content-Type'' ''application/json'', End (Some ''{"ok":true}''),
                Next (Some (JsError ''Error'' ''late''))]])
      (new_Context [] (JBuffer []) []) new_ServerResponse)) = Some (500, ''Internal Error'') \<and>
   sentBody (x_resp (handleExpressRequest example_Runtime
      (\<lambda>req. [[SetHeader ''Content-Type'' ''application/json'', End (Some ''{"ok":true}''),
                Next (Some (JsError ''Error'' ''late''))]])
      (new_Context [] (JBuffer []) []) new_ServerResponse)) =
     ''{"message":"Internal Server Error","detail":"Error: late"}'' \<and>
   sentBody (x_resp (handleExpressRequest example_Runtime
      (\<lambda>req. [[SetHeader ''Content-Type'' ''application/json'', End (Some ''{"ok":true}''),
                Throw (JsError ''Error'' ''late'')]])
      (new_Context [] (JBuffer []) []) new_ServerResponse)) =
     ''{"message":"Internal Server Error","detail":"Error: late"}'' \<and>
   statusLine (x_resp (handleExpressRequest example_Runtime (\<lambda>req. [[Next None]])
      (new_Context [] (JBuffer []) []) new_ServerResponse)) = Some (500, ''Internal Error'') \<and>
   x_resp (handleExpressRequest example_Runtime (\<lambda>req. [[], [Next None]])
      (new_Context [] (JBuffer []) []) new_ServerResponse) = new_ServerResponse \<and>
   x_uncaught (handleExpressRequest example_Runtime (\<lambda>req. [[], [Next None]])
      (new_Context [] (JBuffer []) []) new_ServerResponse) = Some TypeError_headers\<close>
  by code_simp

text \<open>
  Claim C5 at the failing inputs. For every valid request to an adapter whose
  middleware chain ends the response with a body that is not JSON text, the outer
  response is left as it was: no header, no status line, no body and no call of
  \<open>end\<close>, and no error reaches the top either. \<open>completeResponse\<close> sets
  \<open>responseHandled\<close> and then \<open>sendExpressResponse\<close> throws while parsing the body;
  \<open>handleError\<close>, called with that error, returns at once because the flag is set.
\<close>

theorem functionHandler_express_text_body_no_end:
  assumes "im_method req = ''POST''" and "im_url req = ''/call''" and "im_error req = None"
    and "JSON_parse d = None"
  shows "response (functionHandler rt env mode (Express (\<lambda>r. [[End (Some d)]])) req
           new_ServerResponse) = new_ServerResponse \<and>
         uncaughtError (functionHandler rt env mode (Express (\<lambda>r. [[End (Some d)]])) req
           new_ServerResponse) = None"
proof -
  have "JSON_parse [] = None" by code_simp
  with assms show ?thesis
    by (simp add: functionHandler_def handleExpressRequest_def first_turn_def run_reactions_def
          shim_end_def shim_write_def createExpressResponse_def completeResponse_def
          with_sent_def sendExpressResponse_def sendExpressResponse_isJson_def handleError_def
          Let_def)
qed

theorem functionHandler_express_text_body_no_end_witness:
  "JSON_parse ''hello'' = None \<and>
   endCalls (response (functionHandler example_Runtime [] ModeBuffer
      (Express (\<lambda>r. [[End (Some ''hello'')]]))
      \<lparr>im_method = ''POST'', im_url = ''/call'', rawHeaders = [], im_chunks = [],
       im_error = None\<rparr> new_ServerResponse)) = 0"
proof -
  have p: "JSON_parse ''hello'' = None" by code_simp
  have "response (functionHandler example_Runtime [] ModeBuffer
      (Express (\<lambda>r. [[End (Some ''hello'')]]))
      \<lparr>im_method = ''POST'', im_url = ''/call'', rawHeaders = [], im_chunks = [],
       im_error = None\<rparr> new_ServerResponse) = new_ServerResponse"
    using functionHandler_express_text_body_no_end [OF _ _ _ p, of
      "\<lparr>im_method = ''POST'', im_url = ''/call'', rawHeaders = [], im_chunks = [],
       im_error = None\<rparr>" example_Runtime "[]" ModeBuffer]
    by simp
  with p show ?thesis by (simp add: new_ServerResponse_def)
qed

end
